theory Spec2Isabelle
  imports Main "HOL-Library.Char_ord" "HOL-Library.List_Lexorder" "HOL-Library.Sublist"
begin

section \<open>The scan-results store (src/database/resultsDatabase.js)\<close>

text \<open>
  The three tables of \<^verbatim>\<open>createTables\<close>. A row is a record with one field per column;
  a table is the list of its rows in rowid order. \<^verbatim>\<open>DATETIME\<close> columns hold the text
  that SQLite stores for them, and SQLite compares two such texts byte by byte, which
  is the lexicographic order of strings used here. A column that may be \<^verbatim>\<open>NULL\<close> has an
  option type.
\<close>

record scan_session =
  s_id :: string
  started_at :: string
  completed_at :: "string option"
  s_total_items :: int
  processed_items :: int
  success_count :: int
  failed_count :: int
  status :: string

record scan_result =
  r_id :: nat
  session_id :: string
  store :: string
  asin :: string
  success :: int
  timestamp :: string
  extracted_name :: "string option"
  name :: "string option"
  price :: "string option"
  image_url :: "string option"
  product_url :: "string option"
  load_time :: "int option"
  error_message :: "string option"
  retry_count :: int
  variations :: "string option"
  bundle_parts :: "string option"
  extraction_details :: "string option"
  merchandising_data :: "string option"

record scan_progress =
  p_session_id :: string
  current_store :: "string option"
  current_item :: "int option"
  p_total_items :: "int option"
  last_updated :: string

record tables =
  scan_sessions :: "scan_session list"
  scan_results :: "scan_result list"
  scan_progress :: "scan_progress list"
  sqlite_sequence :: nat

text \<open>
  The connection: the tables as the statements of this connection see them, and, while
  a transaction is open, the tables as they were at \<^verbatim>\<open>BEGIN\<close> (what \<^verbatim>\<open>ROLLBACK\<close>
  restores). The committed state is the journal when there is one.
\<close>

record database =
  tbl :: tables
  journal :: "tables option"

definition committed :: "database \<Rightarrow> tables" where
  "committed db = (case journal db of None \<Rightarrow> tbl db | Some t \<Rightarrow> t)"

datatype sql_error = SQLITE_CONSTRAINT string | SQLITE_ERROR string

datatype error = SqlError sql_error | BatchInsertFailed nat

text \<open>
  A promise of the source settles as resolved or rejected, or never settles
  (\<open>Pending\<close>: neither \<^verbatim>\<open>resolve\<close> nor \<^verbatim>\<open>reject\<close> is ever called).
\<close>

datatype 'a promise = Resolved 'a | Rejected error | Pending

subsection \<open>Statements\<close>

text \<open>
  \<^verbatim>\<open>db.run\<close> of a \<^verbatim>\<open>DELETE ... WHERE\<close>: the callback receives the error, or
  \<^verbatim>\<open>this.changes\<close>, the number of rows deleted. No constraint of this schema is checked
  on a delete (the connection never enables foreign-key enforcement), so the statement
  yields its change count.
\<close>

definition delete_results :: "(tables \<Rightarrow> scan_result \<Rightarrow> bool) \<Rightarrow> database \<Rightarrow> sql_error + nat \<times> database" where
  "delete_results cond db =
     (let t = tbl db; rows = scan_results t
      in Inr (length (filter (cond t) rows),
              db\<lparr>tbl := t\<lparr>scan_results := filter (\<lambda>r. \<not> cond t r) rows\<rparr>\<rparr>))"

definition delete_progress :: "(tables \<Rightarrow> scan_progress \<Rightarrow> bool) \<Rightarrow> database \<Rightarrow> sql_error + nat \<times> database" where
  "delete_progress cond db =
     (let t = tbl db; rows = scan_progress t
      in Inr (length (filter (cond t) rows),
              db\<lparr>tbl := t\<lparr>scan_progress := filter (\<lambda>p. \<not> cond t p) rows\<rparr>\<rparr>))"

definition delete_sessions :: "(tables \<Rightarrow> scan_session \<Rightarrow> bool) \<Rightarrow> database \<Rightarrow> sql_error + nat \<times> database" where
  "delete_sessions cond db =
     (let t = tbl db; rows = scan_sessions t
      in Inr (length (filter (cond t) rows),
              db\<lparr>tbl := t\<lparr>scan_sessions := filter (\<lambda>s. \<not> cond t s) rows\<rparr>\<rparr>))"

subsection \<open>deleteSession, getResultCount\<close>

text \<open>
  \<^verbatim>\<open>DELETE FROM scan_results WHERE session_id = ?\<close>, then
  \<^verbatim>\<open>DELETE FROM scan_progress WHERE session_id = ?\<close>, then
  \<^verbatim>\<open>DELETE FROM scan_sessions WHERE id = ?\<close>; the promise resolves with the change count
  of the first statement, whatever the change count of the last one is.
\<close>

definition deleteSession :: "string \<Rightarrow> database \<Rightarrow> nat promise \<times> database" where
  "deleteSession sessionId db =
     (case delete_results (\<lambda>_ r. session_id r = sessionId) db of
        Inl err \<Rightarrow> (Rejected (SqlError err), db)
      | Inr (results_deleted, db1) \<Rightarrow>
          (case delete_progress (\<lambda>_ p. p_session_id p = sessionId) db1 of
             Inl err \<Rightarrow> (Rejected (SqlError err), db1)
           | Inr (_, db2) \<Rightarrow>
               (case delete_sessions (\<lambda>_ s. s_id s = sessionId) db2 of
                  Inl err \<Rightarrow> (Rejected (SqlError err), db2)
                | Inr (_, db3) \<Rightarrow> (Resolved results_deleted, db3))))"

text \<open>\<^verbatim>\<open>SELECT COUNT(*) as count FROM scan_results WHERE session_id = ?\<close>\<close>

definition getResultCount :: "string \<Rightarrow> database \<Rightarrow> nat promise" where
  "getResultCount sessionId db =
     Resolved (length (filter (\<lambda>r. session_id r = sessionId) (scan_results (tbl db))))"

text \<open>
  Referential integrity of the data model: every result row and every progress row
  names a session that has a row.
\<close>

definition references_ok :: "database \<Rightarrow> bool" where
  "references_ok db =
     ((\<forall>r \<in> set (scan_results (tbl db)). session_id r \<in> s_id ` set (scan_sessions (tbl db))) \<and>
      (\<forall>p \<in> set (scan_progress (tbl db)). p_session_id p \<in> s_id ` set (scan_sessions (tbl db))))"

subsection \<open>completeSession\<close>

text \<open>
  \<^verbatim>\<open>UPDATE scan_sessions SET completed_at = CURRENT_TIMESTAMP, status = 'completed' WHERE id = ?\<close>.
  \<open>now\<close> is the text of \<^verbatim>\<open>CURRENT_TIMESTAMP\<close> when the statement runs.
\<close>

definition completeSession :: "string \<Rightarrow> string \<Rightarrow> database \<Rightarrow> unit promise \<times> database" where
  "completeSession now sessionId db =
     (let t = tbl db
      in (Resolved (),
          db\<lparr>tbl := t\<lparr>scan_sessions :=
                map (\<lambda>s. if s_id s = sessionId
                          then s\<lparr>completed_at := Some now, status := ''completed''\<rparr> else s)
                    (scan_sessions t)\<rparr>\<rparr>))"

subsection \<open>Timestamps and their text\<close>

text \<open>
  An instant, by its UTC calendar fields. One instant is earlier than another when its
  fields come first in the order year, month, day, hour, minute, second, millisecond.
\<close>

record utc_time =
  year :: nat
  month :: nat
  day :: nat
  hour :: nat
  minute :: nat
  second :: nat
  millis :: nat

definition time_fields :: "utc_time \<Rightarrow> nat list" where
  "time_fields t = [year t, month t, day t, hour t, minute t, second t, millis t]"

definition earlier :: "utc_time \<Rightarrow> utc_time \<Rightarrow> bool" where
  "earlier a b = (time_fields a < time_fields b)"

definition valid_time :: "utc_time \<Rightarrow> bool" where
  "valid_time t =
     (year t \<le> 9999 \<and> 1 \<le> month t \<and> month t \<le> 12 \<and> 1 \<le> day t \<and> day t \<le> 31 \<and>
      hour t < 24 \<and> minute t < 60 \<and> second t < 60 \<and> millis t < 1000)"

definition digit :: "nat \<Rightarrow> char" where
  "digit d = char_of (48 + d)"

fun zero_pad :: "nat \<Rightarrow> nat \<Rightarrow> string" where
  "zero_pad 0 n = []"
| "zero_pad (Suc w) n = zero_pad w (n div 10) @ [digit (n mod 10)]"

text \<open>
  The text SQLite stores for \<^verbatim>\<open>CURRENT_TIMESTAMP\<close> (\<^verbatim>\<open>YYYY-MM-DD HH:MM:SS\<close>, in UTC,
  whole seconds), which is what \<^verbatim>\<open>started_at\<close> holds by its column default, and the text
  of \<^verbatim>\<open>Date.prototype.toISOString\<close> (\<^verbatim>\<open>YYYY-MM-DDTHH:MM:SS.sssZ\<close>, with a sign and six
  digits for a year beyond 9999).
\<close>

definition CURRENT_TIMESTAMP :: "utc_time \<Rightarrow> string" where
  "CURRENT_TIMESTAMP t =
     zero_pad 4 (year t) @ ''-'' @ zero_pad 2 (month t) @ ''-'' @ zero_pad 2 (day t) @ '' '' @
     zero_pad 2 (hour t) @ '':'' @ zero_pad 2 (minute t) @ '':'' @ zero_pad 2 (second t)"

definition toISOString :: "utc_time \<Rightarrow> string" where
  "toISOString t =
     (if year t \<le> 9999 then zero_pad 4 (year t) else ''+'' @ zero_pad 6 (year t)) @
     ''-'' @ zero_pad 2 (month t) @ ''-'' @ zero_pad 2 (day t) @ ''T'' @
     zero_pad 2 (hour t) @ '':'' @ zero_pad 2 (minute t) @ '':'' @ zero_pad 2 (second t) @
     ''.'' @ zero_pad 3 (millis t) @ ''Z''"

subsection \<open>cleanupOldSessions\<close>

record cleanup_counts =
  deletedSessions :: nat
  deletedResults :: nat

text \<open>\<^verbatim>\<open>SELECT id FROM scan_sessions WHERE started_at < ?\<close>\<close>

definition sessions_started_before :: "string \<Rightarrow> tables \<Rightarrow> string list" where
  "sessions_started_before cutoffISO t =
     map s_id (filter (\<lambda>s. started_at s < cutoffISO) (scan_sessions t))"

text \<open>
  \<open>days_ago d\<close> is the \<^verbatim>\<open>Date\<close> that \<^verbatim>\<open>new Date()\<close> followed by
  \<^verbatim>\<open>setDate(getDate() - d)\<close> gives, the instant \<open>d\<close> days before now: the clock and the
  date arithmetic are the platform's. The three statements run in this order, each on
  the tables the one before left:
  \<^verbatim>\<open>DELETE FROM scan_results WHERE session_id IN (SELECT id FROM scan_sessions WHERE started_at < ?)\<close>,
  the same on \<^verbatim>\<open>scan_progress\<close>, and
  \<^verbatim>\<open>DELETE FROM scan_sessions WHERE started_at < ?\<close>.
\<close>

definition cleanupOldSessions ::
    "(int \<Rightarrow> utc_time) \<Rightarrow> int \<Rightarrow> database \<Rightarrow> cleanup_counts promise \<times> database" where
  "cleanupOldSessions days_ago daysToKeep db =
     (let cutoffDate = days_ago daysToKeep;
          cutoffISO = toISOString cutoffDate
      in case delete_results (\<lambda>t r. session_id r \<in> set (sessions_started_before cutoffISO t)) db of
           Inl err \<Rightarrow> (Rejected (SqlError err), db)
         | Inr (results_deleted, db1) \<Rightarrow>
             (case delete_progress (\<lambda>t p. p_session_id p \<in> set (sessions_started_before cutoffISO t)) db1 of
                Inl err \<Rightarrow> (Rejected (SqlError err), db1)
              | Inr (_, db2) \<Rightarrow>
                  (case delete_sessions (\<lambda>_ s. started_at s < cutoffISO) db2 of
                     Inl err \<Rightarrow> (Rejected (SqlError err), db2)
                   | Inr (sessions_deleted, db3) \<Rightarrow>
                       (Resolved \<lparr>deletedSessions = sessions_deleted, deletedResults = results_deleted\<rparr>,
                        db3))))"

subsection \<open>keepLatestScans\<close>

text \<open>
  \<^verbatim>\<open>SELECT id FROM scan_sessions ORDER BY started_at DESC LIMIT 1 OFFSET ?\<close> with
  \<^verbatim>\<open>count - 1\<close>: the row at that position of the sessions in descending order of
  \<^verbatim>\<open>started_at\<close>, if there is one. SQLite reads a negative \<^verbatim>\<open>OFFSET\<close> as 0. The
  order among rows with equal \<^verbatim>\<open>started_at\<close> is the engine's choice; here it is the
  reverse of the rowid order.
\<close>

definition select_cutoff_id :: "int \<Rightarrow> database \<Rightarrow> sql_error + string option" where
  "select_cutoff_id count db =
     (let ordered = rev (sort_key started_at (scan_sessions (tbl db)));
          offset = (if count - 1 < 0 then 0 else nat (count - 1))
      in Inr (if offset < length ordered then Some (s_id (ordered ! offset)) else None))"

text \<open>
  \<^verbatim>\<open>started_at < (SELECT started_at FROM scan_sessions WHERE id = ?)\<close>: the scalar
  subquery is the \<^verbatim>\<open>started_at\<close> of the first row with that id, or \<^verbatim>\<open>NULL\<close>, and a
  comparison with \<^verbatim>\<open>NULL\<close> selects no row.
\<close>

definition started_before_session :: "string \<Rightarrow> tables \<Rightarrow> scan_session \<Rightarrow> bool" where
  "started_before_session cutoffId t s =
     (case find (\<lambda>c. s_id c = cutoffId) (scan_sessions t) of
        None \<Rightarrow> False
      | Some c \<Rightarrow> started_at s < started_at c)"

definition keepLatestScans :: "int \<Rightarrow> database \<Rightarrow> cleanup_counts promise \<times> database" where
  "keepLatestScans count db =
     (case select_cutoff_id count db of
        Inl err \<Rightarrow> (Rejected (SqlError err), db)
      | Inr None \<Rightarrow> (Resolved \<lparr>deletedSessions = 0, deletedResults = 0\<rparr>, db)
      | Inr (Some cutoffId) \<Rightarrow>
          (case delete_results (\<lambda>t r. session_id r \<in>
                  set (map s_id (filter (started_before_session cutoffId t) (scan_sessions t)))) db of
             Inl err \<Rightarrow> (Rejected (SqlError err), db)
           | Inr (results_deleted, db1) \<Rightarrow>
               (case delete_progress (\<lambda>t p. p_session_id p \<in>
                       set (map s_id (filter (started_before_session cutoffId t) (scan_sessions t)))) db1 of
                  Inl err \<Rightarrow> (Rejected (SqlError err), db1)
                | Inr (_, db2) \<Rightarrow>
                    (case delete_sessions (started_before_session cutoffId) db2 of
                       Inl err \<Rightarrow> (Rejected (SqlError err), db2)
                     | Inr (sessions_deleted, db3) \<Rightarrow>
                         (Resolved \<lparr>deletedSessions = sessions_deleted, deletedResults = results_deleted\<rparr>,
                          db3)))))"

subsection \<open>JavaScript values and their JSON text\<close>

text \<open>
  A number of JavaScript: a finite one by the decimal digits that \<^verbatim>\<open>Number::toString\<close>
  prints for it, \<open>Decimal m e\<close> being \<open>m \<times> 10\<^sup>e\<close> with the sign in \<open>m\<close>; minus zero;
  \<^verbatim>\<open>NaN\<close>; and the two infinities. The digits of a number other than 0 do not end in 0
  (they are the fewest that tell the number from its neighbours, 17 at most); \<open>Decimal 0 0\<close>
  is 0. A \<open>Decimal\<close> whose digits do end in 0 denotes the number of its value.
\<close>

datatype number = Decimal int int | MinusZero | NaN | PlusInfinity | MinusInfinity

text \<open>
  The values a field of a result object may hold: \<^verbatim>\<open>undefined\<close>, \<^verbatim>\<open>null\<close>, booleans,
  numbers, strings, \<^verbatim>\<open>Date\<close> objects (by their instant, \<open>None\<close> for an invalid date),
  arrays, and plain objects as the list of their own properties in enumeration order.
\<close>

datatype js_value =
  VUndefined
| VNull
| VBool bool
| VNum number
| VStr string
| VDate "utc_time option"
| VArr "js_value list"
| VObj "(string \<times> js_value) list"

text \<open>JavaScript's \<^verbatim>\<open>ToBoolean\<close>, as \<^verbatim>\<open>x ? a : b\<close> and \<^verbatim>\<open>x || d\<close> apply it.\<close>

fun ToBoolean :: "js_value \<Rightarrow> bool" where
  "ToBoolean VUndefined = False"
| "ToBoolean VNull = False"
| "ToBoolean (VBool b) = b"
| "ToBoolean (VNum (Decimal m e)) = (m \<noteq> 0)"
| "ToBoolean (VNum MinusZero) = False"
| "ToBoolean (VNum NaN) = False"
| "ToBoolean (VNum PlusInfinity) = True"
| "ToBoolean (VNum MinusInfinity) = True"
| "ToBoolean (VStr s) = (s \<noteq> [])"
| "ToBoolean (VDate d) = True"
| "ToBoolean (VArr xs) = True"
| "ToBoolean (VObj props) = True"

text \<open>\<^verbatim>\<open>x || d\<close>\<close>

definition or_default :: "js_value \<Rightarrow> js_value \<Rightarrow> js_value" where
  "or_default x d = (if ToBoolean x then x else d)"

fun show_nat :: "nat \<Rightarrow> string" where
  "show_nat n = (if n < 10 then [digit n] else show_nat (n div 10) @ [digit (n mod 10)])"

declare show_nat.simps [simp del]

text \<open>
  \<^verbatim>\<open>Number::toString\<close> on a number other than 0 that is \<open>s \<times> 10\<^sup>e\<close>, the \<open>k\<close> digits of \<open>s\<close>
  not ending in 0, with \<open>n = e + k\<close> the place of the decimal point: the digits and \<open>n - k\<close>
  zeros when \<open>k \<le> n \<le> 21\<close>; the digits with a point after the first \<open>n\<close> when
  \<open>0 < n \<le> 21\<close>; \<^verbatim>\<open>0.\<close>, \<open>-n\<close> zeros and the digits when \<open>-6 < n \<le> 0\<close>; and otherwise the
  exponent form, one digit before the point and \<open>n - 1\<close> as the exponent, with its sign.
\<close>

definition digits_to_string :: "nat \<Rightarrow> int \<Rightarrow> string" where
  "digits_to_string s e =
     (let ds = show_nat s; k = int (length ds); n = e + k
      in if k \<le> n \<and> n \<le> 21 then ds @ replicate (nat (n - k)) (CHR ''0'')
         else if 0 < n \<and> n \<le> 21 then take (nat n) ds @ ''.'' @ drop (nat n) ds
         else if - 6 < n \<and> n \<le> 0 then ''0.'' @ replicate (nat (- n)) (CHR ''0'') @ ds
         else (if k = 1 then ds else take 1 ds @ ''.'' @ drop 1 ds) @ ''e'' @
              (if n - 1 < 0 then ''-'' else ''+'') @ show_nat (nat \<bar>n - 1\<bar>))"

text \<open>The digits without the zeros they end in, each zero dropped raising the exponent.\<close>

fun strip_zeros :: "nat \<Rightarrow> int \<Rightarrow> nat \<times> int" where
  "strip_zeros s e = (if s \<noteq> 0 \<and> s mod 10 = 0 then strip_zeros (s div 10) (e + 1) else (s, e))"

declare strip_zeros.simps [simp del]

definition Number_toString :: "number \<Rightarrow> string" where
  "Number_toString x =
     (case x of
        NaN \<Rightarrow> ''NaN''
      | PlusInfinity \<Rightarrow> ''Infinity''
      | MinusInfinity \<Rightarrow> ''-Infinity''
      | MinusZero \<Rightarrow> ''0''
      | Decimal m e \<Rightarrow>
          if m = 0 then ''0''
          else (case strip_zeros (nat \<bar>m\<bar>) e of
                  (s, e') \<Rightarrow> (if m < 0 then ''-'' else []) @ digits_to_string s e'))"

definition is_finite :: "number \<Rightarrow> bool" where
  "is_finite x = (x \<noteq> NaN \<and> x \<noteq> PlusInfinity \<and> x \<noteq> MinusInfinity)"

definition hex_digit :: "nat \<Rightarrow> char" where
  "hex_digit d = (if d < 10 then char_of (48 + d) else char_of (87 + d))"

text \<open>
  \<^verbatim>\<open>JSON.stringify\<close> on a string: the quotation mark (0x22) and the backslash (0x5C) are
  escaped, the control characters have their short escapes or \<^verbatim>\<open>\u00XX\<close>, every other
  character stands for itself.
\<close>

definition escape_char :: "char \<Rightarrow> string" where
  "escape_char c =
     (if c = CHR 0x22 then [CHR 0x5C, CHR 0x22]
      else if c = CHR 0x5C then [CHR 0x5C, CHR 0x5C]
      else if c = CHR 0x08 then [CHR 0x5C, CHR ''b'']
      else if c = CHR 0x0C then [CHR 0x5C, CHR ''f'']
      else if c = CHR 0x0A then [CHR 0x5C, CHR ''n'']
      else if c = CHR 0x0D then [CHR 0x5C, CHR ''r'']
      else if c = CHR 0x09 then [CHR 0x5C, CHR ''t'']
      else if (of_char c :: nat) < 32 then
        [CHR 0x5C, CHR ''u'', CHR ''0'', CHR ''0'',
         hex_digit ((of_char c :: nat) div 16), hex_digit ((of_char c :: nat) mod 16)]
      else [c])"

definition quote :: "string \<Rightarrow> string" where
  "quote s = CHR 0x22 # concat (map escape_char s) @ [CHR 0x22]"

fun join_commas :: "string list \<Rightarrow> string" where
  "join_commas [] = []"
| "join_commas [x] = x"
| "join_commas (x # y # ys) = x @ '','' @ join_commas (y # ys)"

text \<open>
  \<^verbatim>\<open>JSON.stringify\<close> of a value, with no indentation. Its result is \<^verbatim>\<open>undefined\<close>
  (\<open>None\<close>) for \<^verbatim>\<open>undefined\<close>. A number that is not finite is written \<^verbatim>\<open>null\<close>; a date
  is written as the string \<^verbatim>\<open>toISOString\<close> gives (\<^verbatim>\<open>toJSON\<close>), \<^verbatim>\<open>null\<close> when it is
  invalid; an element of an array that has no text is written \<^verbatim>\<open>null\<close>, and a property
  whose value has no text is left out.
\<close>

fun JSON_stringify :: "js_value \<Rightarrow> string option" where
  "JSON_stringify VUndefined = None"
| "JSON_stringify VNull = Some ''null''"
| "JSON_stringify (VBool b) = Some (if b then ''true'' else ''false'')"
| "JSON_stringify (VNum x) = Some (if is_finite x then Number_toString x else ''null'')"
| "JSON_stringify (VStr s) = Some (quote s)"
| "JSON_stringify (VDate d) = Some (case d of None \<Rightarrow> ''null'' | Some t \<Rightarrow> quote (toISOString t))"
| "JSON_stringify (VArr xs) =
     Some (''['' @ join_commas (map (\<lambda>x. case JSON_stringify x of None \<Rightarrow> ''null'' | Some s \<Rightarrow> s) xs) @ '']'')"
| "JSON_stringify (VObj props) =
     Some (''{'' @ join_commas (concat (map (\<lambda>p. case JSON_stringify (snd p) of
                                                    None \<Rightarrow> []
                                                  | Some s \<Rightarrow> [quote (fst p) @ '':'' @ s]) props)) @ ''}'')"

text \<open>
  \<^verbatim>\<open>JSON.parse\<close> on a text written without white space. A text it does not accept is a
  \<^verbatim>\<open>SyntaxError\<close> (\<open>None\<close>). A number is read as the number its digits denote: the
  integer part (\<^verbatim>\<open>0\<close>, or digits that do not begin with 0), a fraction, an exponent.
  The texts that \<^verbatim>\<open>JSON.stringify\<close> writes for numbers denote them exactly; the rounding
  of longer or larger literals to the nearest double is outside this model.
\<close>

definition is_digit :: "char \<Rightarrow> bool" where
  "is_digit c = (48 \<le> (of_char c :: nat) \<and> (of_char c :: nat) \<le> 57)"

definition digit_val :: "char \<Rightarrow> nat" where
  "digit_val c = of_char c - 48"

definition digits_value :: "string \<Rightarrow> nat" where
  "digits_value ds = foldl (\<lambda>a c. 10 * a + digit_val c) 0 ds"

definition make_number :: "bool \<Rightarrow> nat \<Rightarrow> int \<Rightarrow> number" where
  "make_number negative s e =
     (if s = 0 then (if negative then MinusZero else Decimal 0 0)
      else (case strip_zeros s e of
              (s', e') \<Rightarrow> Decimal (if negative then - int s' else int s') e'))"

definition parse_fraction :: "string \<Rightarrow> (string \<times> string) option" where
  "parse_fraction cs =
     (case cs of
        [] \<Rightarrow> Some ([], [])
      | c # r \<Rightarrow>
          if c = CHR ''.'' then
            (let fs = takeWhile is_digit r
             in if fs = [] then None else Some (fs, dropWhile is_digit r))
          else Some ([], cs))"

definition parse_exponent :: "string \<Rightarrow> (int \<times> string) option" where
  "parse_exponent cs =
     (case cs of
        [] \<Rightarrow> Some (0, [])
      | c # r \<Rightarrow>
          if c = CHR ''e'' \<or> c = CHR ''E'' then
            (let negative = (r \<noteq> [] \<and> hd r = CHR ''-'');
                 r' = (if r \<noteq> [] \<and> (hd r = CHR ''-'' \<or> hd r = CHR ''+'') then tl r else r);
                 es = takeWhile is_digit r'
             in if es = [] then None
                else Some (if negative then - int (digits_value es) else int (digits_value es),
                           dropWhile is_digit r'))
          else Some (0, cs))"

definition parse_number :: "string \<Rightarrow> (number \<times> string) option" where
  "parse_number cs =
     (let negative = (cs \<noteq> [] \<and> hd cs = CHR ''-'');
          cs1 = (if negative then tl cs else cs);
          ds = takeWhile is_digit cs1
      in if ds = [] \<or> (length ds > 1 \<and> hd ds = CHR ''0'') then None
         else
           (case parse_fraction (dropWhile is_digit cs1) of
              None \<Rightarrow> None
            | Some (fs, cs2) \<Rightarrow>
                (case parse_exponent cs2 of
                   None \<Rightarrow> None
                 | Some (x, rest) \<Rightarrow>
                     Some (make_number negative (digits_value (ds @ fs)) (x - int (length fs)), rest))))"

definition hex_val :: "char \<Rightarrow> nat option" where
  "hex_val c =
     (let n = (of_char c :: nat)
      in if 48 \<le> n \<and> n \<le> 57 then Some (n - 48)
         else if 97 \<le> n \<and> n \<le> 102 then Some (n - 87)
         else if 65 \<le> n \<and> n \<le> 70 then Some (n - 55)
         else None)"

definition hex4 :: "char \<Rightarrow> char \<Rightarrow> char \<Rightarrow> char \<Rightarrow> char option" where
  "hex4 a b c d =
     (case (hex_val a, hex_val b, hex_val c, hex_val d) of
        (Some p, Some q, Some r, Some s) \<Rightarrow>
          (let n = ((p * 16 + q) * 16 + r) * 16 + s
           in if n < 256 then Some (char_of n) else None)
      | _ \<Rightarrow> None)"

definition unescape :: "char \<Rightarrow> char option" where
  "unescape e =
     (if e = CHR 0x22 then Some (CHR 0x22)
      else if e = CHR 0x5C then Some (CHR 0x5C)
      else if e = CHR ''/'' then Some (CHR ''/'')
      else if e = CHR ''b'' then Some (CHR 0x08)
      else if e = CHR ''f'' then Some (CHR 0x0C)
      else if e = CHR ''n'' then Some (CHR 0x0A)
      else if e = CHR ''r'' then Some (CHR 0x0D)
      else if e = CHR ''t'' then Some (CHR 0x09)
      else None)"

definition cons_result :: "char \<Rightarrow> (string \<times> string) option \<Rightarrow> (string \<times> string) option" where
  "cons_result c r = (case r of None \<Rightarrow> None | Some (s, rest) \<Rightarrow> Some (c # s, rest))"

text \<open>The characters of a string after its opening quotation mark, up to the closing one.\<close>

fun parse_chars :: "string \<Rightarrow> (string \<times> string) option" where
  "parse_chars [] = None"
| "parse_chars (c # cs) =
     (if c = CHR 0x22 then Some ([], cs)
      else if c = CHR 0x5C then
        (case cs of
           [] \<Rightarrow> None
         | e # r \<Rightarrow>
             if e = CHR ''u'' then
               (case r of
                  a # b # x # y # r' \<Rightarrow>
                    (case hex4 a b x y of
                       None \<Rightarrow> None
                     | Some ch \<Rightarrow> cons_result ch (parse_chars r'))
                | _ \<Rightarrow> None)
             else
               (case unescape e of
                  None \<Rightarrow> None
                | Some ch \<Rightarrow> cons_result ch (parse_chars r)))
      else if (of_char c :: nat) < 32 then None
      else cons_result c (parse_chars cs))"

text \<open>
  The object that the members of a text make. Each member defines a property, in the
  order of the text: a key that the object has already keeps its place and takes the new
  value; a new key that is an array index (the decimal text of a number below
  4294967295) goes among the array indices, which an object enumerates first and in
  ascending order; any other new key goes last.
\<close>

definition array_index :: "string \<Rightarrow> nat option" where
  "array_index k =
     (if k \<noteq> [] \<and> list_all is_digit k \<and> (k = ''0'' \<or> hd k \<noteq> CHR ''0'') \<and> digits_value k < 4294967295
      then Some (digits_value k) else None)"

definition index_below :: "nat \<Rightarrow> string \<Rightarrow> bool" where
  "index_below i k = (case array_index k of None \<Rightarrow> False | Some j \<Rightarrow> j < i)"

definition define_property ::
    "string \<Rightarrow> js_value \<Rightarrow> (string \<times> js_value) list \<Rightarrow> (string \<times> js_value) list" where
  "define_property k v props =
     (if k \<in> set (map fst props) then map (\<lambda>p. if fst p = k then (k, v) else p) props
      else
        (case array_index k of
           None \<Rightarrow> props @ [(k, v)]
         | Some i \<Rightarrow>
             takeWhile (\<lambda>p. index_below i (fst p)) props @ [(k, v)] @
             dropWhile (\<lambda>p. index_below i (fst p)) props))"

definition object_of :: "(string \<times> js_value) list \<Rightarrow> (string \<times> js_value) list" where
  "object_of members = foldl (\<lambda>props m. define_property (fst m) (snd m) props) [] members"

text \<open>
  The value parser takes the number of nested calls it may make; \<open>JSON_parse\<close> gives it
  the length of the text.
\<close>

fun parse_value :: "nat \<Rightarrow> string \<Rightarrow> (js_value \<times> string) option"
  and parse_elements :: "nat \<Rightarrow> string \<Rightarrow> (js_value list \<times> string) option"
  and parse_members :: "nat \<Rightarrow> string \<Rightarrow> ((string \<times> js_value) list \<times> string) option"
where
  "parse_value 0 cs = None"
| "parse_value (Suc fuel) [] = None"
| "parse_value (Suc fuel) (c # cs) =
     (if c = CHR ''n'' then (if take 3 cs = ''ull'' then Some (VNull, drop 3 cs) else None)
      else if c = CHR ''t'' then (if take 3 cs = ''rue'' then Some (VBool True, drop 3 cs) else None)
      else if c = CHR ''f'' then (if take 4 cs = ''alse'' then Some (VBool False, drop 4 cs) else None)
      else if c = CHR 0x22 then
        (case parse_chars cs of None \<Rightarrow> None | Some (s, rest) \<Rightarrow> Some (VStr s, rest))
      else if c = CHR ''['' then
        (case cs of
           [] \<Rightarrow> None
         | d # ds \<Rightarrow>
             if d = CHR '']'' then Some (VArr [], ds)
             else (case parse_elements fuel cs of
                     None \<Rightarrow> None
                   | Some (xs, rest) \<Rightarrow> Some (VArr xs, rest)))
      else if c = CHR ''{'' then
        (case cs of
           [] \<Rightarrow> None
         | d # ds \<Rightarrow>
             if d = CHR ''}'' then Some (VObj [], ds)
             else (case parse_members fuel cs of
                     None \<Rightarrow> None
                   | Some (members, rest) \<Rightarrow> Some (VObj (object_of members), rest)))
      else
        (case parse_number (c # cs) of None \<Rightarrow> None | Some (x, rest) \<Rightarrow> Some (VNum x, rest)))"
| "parse_elements 0 cs = None"
| "parse_elements (Suc fuel) cs =
     (case parse_value fuel cs of
        None \<Rightarrow> None
      | Some (x, rest) \<Rightarrow>
          (case rest of
             [] \<Rightarrow> None
           | d # ds \<Rightarrow>
               if d = CHR '']'' then Some ([x], ds)
               else if d = CHR '','' then
                 (case parse_elements fuel ds of
                    None \<Rightarrow> None
                  | Some (xs, rest') \<Rightarrow> Some (x # xs, rest'))
               else None))"
| "parse_members 0 cs = None"
| "parse_members (Suc fuel) cs =
     (case cs of
        [] \<Rightarrow> None
      | q # cs1 \<Rightarrow>
          if q \<noteq> CHR 0x22 then None
          else
            (case parse_chars cs1 of
               None \<Rightarrow> None
             | Some (k, cs2) \<Rightarrow>
                 (case cs2 of
                    [] \<Rightarrow> None
                  | colon # cs3 \<Rightarrow>
                      if colon \<noteq> CHR '':'' then None
                      else
                        (case parse_value fuel cs3 of
                           None \<Rightarrow> None
                         | Some (v, rest) \<Rightarrow>
                             (case rest of
                                [] \<Rightarrow> None
                              | d # ds \<Rightarrow>
                                  if d = CHR ''}'' then Some ([(k, v)], ds)
                                  else if d = CHR '','' then
                                    (case parse_members fuel ds of
                                       None \<Rightarrow> None
                                     | Some (members, rest') \<Rightarrow> Some ((k, v) # members, rest'))
                                  else None)))))"

definition JSON_parse :: "string \<Rightarrow> js_value option" where
  "JSON_parse text =
     (case parse_value (length text) text of
        Some (v, []) \<Rightarrow> Some v
      | _ \<Rightarrow> None)"

text \<open>
  What \<^verbatim>\<open>JSON.parse\<close> gives back from the text of a value: the value itself when it
  is made of \<^verbatim>\<open>null\<close>, booleans, finite numbers, strings, arrays and plain objects
  only; \<^verbatim>\<open>null\<close> for a number that is not finite, for an invalid date, and for
  \<^verbatim>\<open>undefined\<close> in an array; 0 for minus zero; its string for a date; and an object
  without the properties whose value is \<^verbatim>\<open>undefined\<close>.
\<close>

fun revived :: "js_value \<Rightarrow> js_value" where
  "revived VUndefined = VNull"
| "revived VNull = VNull"
| "revived (VBool b) = VBool b"
| "revived (VNum x) =
     (case x of
        Decimal m e \<Rightarrow> VNum (make_number (m < 0) (nat \<bar>m\<bar>) e)
      | MinusZero \<Rightarrow> VNum (Decimal 0 0)
      | _ \<Rightarrow> VNull)"
| "revived (VStr s) = VStr s"
| "revived (VDate d) = (case d of None \<Rightarrow> VNull | Some t \<Rightarrow> VStr (toISOString t))"
| "revived (VArr xs) = VArr (map revived xs)"
| "revived (VObj props) =
     VObj (object_of (map (\<lambda>p. (fst p, revived (snd p))) (filter (\<lambda>p. snd p \<noteq> VUndefined) props)))"

text \<open>
  The values that JSON represents as they are: \<^verbatim>\<open>null\<close>, booleans, finite numbers other
  than minus zero (given by their digits: \<open>Decimal 0 0\<close>, or digits that do not end in 0),
  strings, and arrays and objects of such values, the properties of an object in the
  order in which an object enumerates them: the array indices first, ascending, no key
  twice.
\<close>

fun index_order :: "nat option list \<Rightarrow> bool" where
  "index_order [] = True"
| "index_order [x] = True"
| "index_order (Some i # Some j # r) = (i < j \<and> index_order (Some j # r))"
| "index_order (Some i # None # r) = index_order (None # r)"
| "index_order (None # Some j # r) = False"
| "index_order (None # None # r) = index_order (None # r)"

definition enumeration_order :: "string list \<Rightarrow> bool" where
  "enumeration_order keys = (distinct keys \<and> index_order (map array_index keys))"

fun plain :: "js_value \<Rightarrow> bool" where
  "plain VUndefined = False"
| "plain VNull = True"
| "plain (VBool b) = True"
| "plain (VNum x) = (case x of Decimal m e \<Rightarrow> (if m = 0 then e = 0 else m mod 10 \<noteq> 0) | _ \<Rightarrow> False)"
| "plain (VStr s) = True"
| "plain (VDate d) = False"
| "plain (VArr xs) = list_all plain xs"
| "plain (VObj props) = (list_all (\<lambda>p. plain (snd p)) props \<and> enumeration_order (map fst props))"

text \<open>What may follow a value in a text: nothing, a comma, or a closing bracket or brace.\<close>

definition ends_value :: "string \<Rightarrow> bool" where
  "ends_value rest =
     (case rest of [] \<Rightarrow> True | c # _ \<Rightarrow> c = CHR '','' \<or> c = CHR '']'' \<or> c = CHR ''}'')"

subsection \<open>insertResult\<close>

text \<open>
  The result object handed to \<^verbatim>\<open>insertResult\<close>. A text or number field that is
  \<^verbatim>\<open>undefined\<close> or \<^verbatim>\<open>null\<close> is \<open>None\<close> and is bound as \<^verbatim>\<open>NULL\<close>; the success flag
  and the four payloads hold any value, \<^verbatim>\<open>undefined\<close> when absent. (The fields \<^verbatim>\<open>store\<close>, \<^verbatim>\<open>asin\<close>,
  \<^verbatim>\<open>success\<close>, \<^verbatim>\<open>name\<close>, \<^verbatim>\<open>price\<close> and the four payloads carry the prefix \<open>res_\<close>
  here, the column of the same name being a field of the row.)
\<close>

record result =
  res_store :: "string option"
  res_asin :: "string option"
  res_success :: js_value
  extractedName :: "string option"
  res_name :: "string option"
  res_price :: "string option"
  imageUrl :: "string option"
  productUrl :: "string option"
  loadTime :: "int option"
  errorMessage :: "string option"
  retryCount :: "int option"
  res_variations :: js_value
  res_bundleParts :: js_value
  res_extractionDetails :: js_value
  res_merchandisingData :: js_value

text \<open>
  The \<^verbatim>\<open>INSERT INTO scan_results\<close>. \<^verbatim>\<open>store\<close> and \<^verbatim>\<open>asin\<close> are \<^verbatim>\<open>NOT NULL\<close>
  columns: a \<^verbatim>\<open>NULL\<close> for one of them fails the statement and changes nothing. The
  foreign key on \<^verbatim>\<open>session_id\<close> is not checked, the connection never turning
  enforcement on. \<^verbatim>\<open>id\<close> is \<^verbatim>\<open>AUTOINCREMENT\<close>: one more than the largest id ever
  given. \<open>now\<close> is the text of \<^verbatim>\<open>CURRENT_TIMESTAMP\<close>, the default of \<^verbatim>\<open>timestamp\<close>.
  The promise resolves with \<^verbatim>\<open>this.lastID\<close>.
\<close>

definition insertResult :: "string \<Rightarrow> string \<Rightarrow> result \<Rightarrow> database \<Rightarrow> nat promise \<times> database" where
  "insertResult now sessionId result db =
     (case res_store result of
        None \<Rightarrow>
          (Rejected (SqlError (SQLITE_CONSTRAINT ''NOT NULL constraint failed: scan_results.store'')), db)
      | Some store_value \<Rightarrow>
          (case res_asin result of
             None \<Rightarrow>
               (Rejected (SqlError (SQLITE_CONSTRAINT ''NOT NULL constraint failed: scan_results.asin'')), db)
           | Some asin_value \<Rightarrow>
               (let t = tbl db;
                    lastID = sqlite_sequence t + 1;
                    row = \<lparr>r_id = lastID,
                           session_id = sessionId,
                           store = store_value,
                           asin = asin_value,
                           success = (if ToBoolean (res_success result) then 1 else 0),
                           timestamp = now,
                           extracted_name = extractedName result,
                           name = res_name result,
                           price = res_price result,
                           image_url = imageUrl result,
                           product_url = productUrl result,
                           load_time = loadTime result,
                           error_message = errorMessage result,
                           retry_count = (case retryCount result of None \<Rightarrow> 0 | Some n \<Rightarrow> n),
                           variations = JSON_stringify (or_default (res_variations result) (VArr [])),
                           bundle_parts = JSON_stringify (or_default (res_bundleParts result) (VArr [])),
                           extraction_details =
                             JSON_stringify (or_default (res_extractionDetails result) (VObj [])),
                           merchandising_data =
                             JSON_stringify (or_default (res_merchandisingData result) (VObj []))\<rparr>
                in (Resolved lastID,
                    db\<lparr>tbl := t\<lparr>scan_results := scan_results t @ [row], sqlite_sequence := lastID\<rparr>\<rparr>))))"

text \<open>The results whose insert fails: those without a store or without an item identifier.\<close>

definition insert_fails :: "result \<Rightarrow> bool" where
  "insert_fails r = (res_store r = None \<or> res_asin r = None)"

subsection \<open>insertBatch\<close>

text \<open>
  \<^verbatim>\<open>BEGIN TRANSACTION\<close>, \<^verbatim>\<open>COMMIT\<close> and \<^verbatim>\<open>ROLLBACK\<close>. Issued inside a transaction,
  \<^verbatim>\<open>BEGIN\<close> fails and changes nothing, and the source passes it no callback;
  \<^verbatim>\<open>COMMIT\<close> outside a transaction is an error, which its callback receives;
  the callback of \<^verbatim>\<open>ROLLBACK\<close> ignores its error.
\<close>

definition BEGIN_TRANSACTION :: "database \<Rightarrow> database" where
  "BEGIN_TRANSACTION db = (case journal db of None \<Rightarrow> db\<lparr>journal := Some (tbl db)\<rparr> | Some _ \<Rightarrow> db)"

definition COMMIT :: "database \<Rightarrow> sql_error + database" where
  "COMMIT db =
     (case journal db of
        None \<Rightarrow> Inl (SQLITE_ERROR ''cannot commit - no transaction is active'')
      | Some _ \<Rightarrow> Inr (db\<lparr>journal := None\<rparr>))"

definition ROLLBACK :: "database \<Rightarrow> database" where
  "ROLLBACK db = (case journal db of None \<Rightarrow> db | Some t \<Rightarrow> db\<lparr>tbl := t, journal := None\<rparr>)"

record batch_report =
  inserted :: nat
  errors :: "error list"

text \<open>
  The state the callbacks of one \<^verbatim>\<open>insertBatch\<close> share: the counter \<^verbatim>\<open>completed\<close>, the
  array \<^verbatim>\<open>errors\<close>, the promise being settled, and the connection.
\<close>

record batch =
  completed :: nat
  batch_errors :: "error list"
  outcome :: "batch_report promise"
  conn :: database

text \<open>
  One turn of the loop with its callback. The statements are serialized, so the inserts
  run in the order of \<^verbatim>\<open>results\<close> and each callback runs after its insert: \<^verbatim>\<open>.then\<close>
  after a success, \<^verbatim>\<open>.catch\<close> after a failure. Either one counts the insert as
  completed, and the one that brings the counter to \<^verbatim>\<open>results.length\<close> (\<open>n\<close>) ends the
  transaction: \<^verbatim>\<open>COMMIT\<close> in \<^verbatim>\<open>.then\<close>, \<^verbatim>\<open>ROLLBACK\<close> in \<^verbatim>\<open>.catch\<close>.
\<close>

definition insert_one :: "string \<Rightarrow> string \<Rightarrow> nat \<Rightarrow> result \<Rightarrow> batch \<Rightarrow> batch" where
  "insert_one now sessionId n r b =
     (case insertResult now sessionId r (conn b) of
        (Resolved _, db1) \<Rightarrow>
          (let done = completed b + 1
           in if done = n then
                (case COMMIT db1 of
                   Inl err \<Rightarrow> b\<lparr>completed := done, outcome := Rejected (SqlError err), conn := db1\<rparr>
                 | Inr db2 \<Rightarrow>
                     b\<lparr>completed := done,
                       outcome := Resolved \<lparr>inserted = done, errors = batch_errors b\<rparr>,
                       conn := db2\<rparr>)
              else b\<lparr>completed := done, conn := db1\<rparr>)
      | (Rejected err, db1) \<Rightarrow>
          (let errs = batch_errors b @ [err]; done = completed b + 1
           in if done = n then
                b\<lparr>completed := done, batch_errors := errs,
                  outcome := Rejected (BatchInsertFailed (length errs)), conn := ROLLBACK db1\<rparr>
              else b\<lparr>completed := done, batch_errors := errs, conn := db1\<rparr>)
      | (Pending, db1) \<Rightarrow> b\<lparr>conn := db1\<rparr>)"

fun insert_all :: "string \<Rightarrow> string \<Rightarrow> nat \<Rightarrow> result list \<Rightarrow> batch \<Rightarrow> batch" where
  "insert_all now sessionId n [] b = b"
| "insert_all now sessionId n (r # rs) b = insert_all now sessionId n rs (insert_one now sessionId n r b)"

definition insertBatch :: "string \<Rightarrow> string \<Rightarrow> result list \<Rightarrow> database \<Rightarrow> batch_report promise \<times> database" where
  "insertBatch now sessionId results db =
     (let b = insert_all now sessionId (length results) results
                \<lparr>completed = 0, batch_errors = [], outcome = Pending, conn = BEGIN_TRANSACTION db\<rparr>
      in (outcome b, conn b))"

text \<open>The number of committed result rows of a session.\<close>

definition committed_count :: "string \<Rightarrow> database \<Rightarrow> nat" where
  "committed_count sessionId db =
     length (filter (\<lambda>r. session_id r = sessionId) (scan_results (committed db)))"

subsection \<open>deserializeResult\<close>

text \<open>
  The object \<^verbatim>\<open>deserializeResult\<close> returns: the columns of the row (\<^verbatim>\<open>...row\<close>), of
  which \<^verbatim>\<open>success\<close> and \<^verbatim>\<open>variations\<close> are then overwritten, and the three keys
  \<^verbatim>\<open>bundleParts\<close>, \<^verbatim>\<open>extractionDetails\<close> and \<^verbatim>\<open>merchandisingData\<close>. A column text
  that is \<^verbatim>\<open>NULL\<close> or empty is falsy and gives the default; \<^verbatim>\<open>JSON.parse\<close> throws
  \<^verbatim>\<open>SyntaxError\<close> on a text it does not accept.
\<close>

record deserialized =
  columns :: scan_result
  des_success :: bool
  des_variations :: js_value
  bundleParts :: js_value
  extractionDetails :: js_value
  merchandisingData :: js_value

datatype parse_error = SyntaxError string

definition parse_or :: "string option \<Rightarrow> js_value \<Rightarrow> parse_error + js_value" where
  "parse_or text d =
     (case text of
        None \<Rightarrow> Inr d
      | Some s \<Rightarrow>
          if s = [] then Inr d
          else (case JSON_parse s of None \<Rightarrow> Inl (SyntaxError s) | Some v \<Rightarrow> Inr v))"

definition deserializeResult :: "scan_result \<Rightarrow> parse_error + deserialized" where
  "deserializeResult row =
     (case parse_or (variations row) (VArr []) of
        Inl e \<Rightarrow> Inl e
      | Inr v \<Rightarrow>
          (case parse_or (bundle_parts row) (VArr []) of
             Inl e \<Rightarrow> Inl e
           | Inr b \<Rightarrow>
               (case parse_or (extraction_details row) (VObj []) of
                  Inl e \<Rightarrow> Inl e
                | Inr x \<Rightarrow>
                    (case parse_or (merchandising_data row) (VObj []) of
                       Inl e \<Rightarrow> Inl e
                     | Inr m \<Rightarrow>
                         Inr \<lparr>columns = row, des_success = (success row \<noteq> 0), des_variations = v,
                              bundleParts = b, extractionDetails = x, merchandisingData = m\<rparr>))))"

section \<open>Objects and the members they inherit\<close>

text \<open>
  \<^verbatim>\<open>this.limits\<close> and \<^verbatim>\<open>IPCValidator.schemas\<close> are object literals, and \<^verbatim>\<open>obj[name]\<close>
  finds, besides the entries written in the literal, the members every object inherits
  from \<^verbatim>\<open>Object.prototype\<close>. Each of these is a function, or, for \<^verbatim>\<open>__proto__\<close>, the
  prototype itself: a truthy value that has no property \<^verbatim>\<open>maxCalls\<close> or \<^verbatim>\<open>windowMs\<close> and
  no enumerable property of its own.
\<close>

definition Object_prototype :: "string list" where
  "Object_prototype =
     [''constructor'', ''__defineGetter__'', ''__defineSetter__'', ''hasOwnProperty'',
      ''__lookupGetter__'', ''__lookupSetter__'', ''isPrototypeOf'', ''propertyIsEnumerable'',
      ''toString'', ''valueOf'', ''__proto__'', ''toLocaleString'']"

section \<open>The rate limiter (RateLimiter)\<close>

record limit =
  maxCalls :: nat
  windowMs :: int

text \<open>
  What \<^verbatim>\<open>this.limits[channel]\<close> is: one of the four entries the constructor writes
  (nothing changes the table afterwards), an inherited member, or \<^verbatim>\<open>undefined\<close>
  (\<open>None\<close>).
\<close>

datatype limit_entry = Limit limit | Inherited

definition limits :: "string \<Rightarrow> limit_entry option" where
  "limits channel =
     (if channel = ''start-scan'' then Some (Limit \<lparr>maxCalls = 1, windowMs = 60000\<rparr>)
      else if channel = ''stop-scan'' then Some (Limit \<lparr>maxCalls = 10, windowMs = 60000\<rparr>)
      else if channel = ''export-results'' then Some (Limit \<lparr>maxCalls = 5, windowMs = 60000\<rparr>)
      else if channel = ''save-config'' then Some (Limit \<lparr>maxCalls = 20, windowMs = 60000\<rparr>)
      else if channel \<in> set Object_prototype then Some Inherited
      else None)"

text \<open>
  \<^verbatim>\<open>this.calls\<close>: for each key the array of the times (\<^verbatim>\<open>Date.now()\<close>, milliseconds)
  of the calls recorded for it.
\<close>

type_synonym calls = "string \<Rightarrow> int list option"

text \<open>
  The number in the message of the error. \<^verbatim>\<open>Math.min()\<close> of no arguments is
  \<^verbatim>\<open>Infinity\<close>, and the number computed from it is \<^verbatim>\<open>Infinity\<close> too.
\<close>

datatype seconds = Seconds int | Infinity

datatype limit_error = RateLimitExceeded string seconds

text \<open>\<^verbatim>\<open>Math.ceil(ms / 1000)\<close> for an integer number of milliseconds.\<close>

definition ceil_seconds :: "int \<Rightarrow> int" where
  "ceil_seconds ms = - ((- ms) div 1000)"

definition oldest :: "int list \<Rightarrow> int option" where
  "oldest validCalls = (case validCalls of [] \<Rightarrow> None | t # ts \<Rightarrow> Some (fold min ts t))"

definition resetTime :: "limit \<Rightarrow> int \<Rightarrow> int list \<Rightarrow> seconds" where
  "resetTime lim now validCalls =
     (case oldest validCalls of
        None \<Rightarrow> Infinity
      | Some oldestCall \<Rightarrow> Seconds (ceil_seconds (windowMs lim - (now - oldestCall))))"

text \<open>
  \<open>now\<close> is the value of \<^verbatim>\<open>Date.now()\<close> in the call. The array stored under the key is
  the filtered one, and the push that records the call appends to that same array. When
  \<^verbatim>\<open>limit\<close> is an inherited member, \<^verbatim>\<open>limit.windowMs\<close> and \<^verbatim>\<open>limit.maxCalls\<close> are
  \<^verbatim>\<open>undefined\<close>, and both comparisons, \<^verbatim>\<open>now - time < undefined\<close> and
  \<^verbatim>\<open>validCalls.length >= undefined\<close>, are false: the filter keeps no time, the limit is
  not exceeded, and the call is recorded.
\<close>

definition checkLimit :: "int \<Rightarrow> string \<Rightarrow> calls \<Rightarrow> (limit_error + bool) \<times> calls" where
  "checkLimit now channel calls =
     (case limits channel of
        None \<Rightarrow> (Inr True, calls)
      | Some (Limit lim) \<Rightarrow>
          (let key = channel;
               recorded = (case calls key of None \<Rightarrow> [] | Some ts \<Rightarrow> ts);
               validCalls = filter (\<lambda>time. now - time < windowMs lim) recorded
           in if length validCalls \<ge> maxCalls lim
              then (Inl (RateLimitExceeded channel (resetTime lim now validCalls)),
                    calls(key \<mapsto> validCalls))
              else (Inr True, calls(key \<mapsto> validCalls @ [now])))
      | Some Inherited \<Rightarrow>
          (let key = channel;
               recorded = (case calls key of None \<Rightarrow> [] | Some ts \<Rightarrow> ts);
               validCalls = filter (\<lambda>time. False) recorded
           in (Inr True, calls(key \<mapsto> validCalls @ [now]))))"

text \<open>A sequence of calls on one channel, at the given times, with the answer to each.\<close>

fun checkLimit_each :: "int list \<Rightarrow> string \<Rightarrow> calls \<Rightarrow> (limit_error + bool) list \<times> calls" where
  "checkLimit_each [] channel calls = ([], calls)"
| "checkLimit_each (now # later) channel calls =
     (case checkLimit now channel calls of
        (answer, calls1) \<Rightarrow>
          (case checkLimit_each later channel calls1 of
             (answers, calls2) \<Rightarrow> (answer # answers, calls2)))"

section \<open>The command validator (IPCValidator)\<close>

subsection \<open>Payloads\<close>

text \<open>
  The payload of a command as it reaches the validator: \<^verbatim>\<open>null\<close>, booleans, integers,
  strings, arrays, and objects as the list of their own properties in enumeration order.
  \<^verbatim>\<open>undefined\<close> is the absence of a value (\<open>None\<close> of an option) and occurs as a field,
  never inside a value; numbers that are not integers are outside this type.
\<close>

datatype json =
  JNull
| JBool bool
| JNum int
| JStr string
| JArr "json list"
| JObj "(string \<times> json) list"

text \<open>JavaScript's \<^verbatim>\<open>ToBoolean\<close> on a payload, as \<^verbatim>\<open>!value\<close> applies it.\<close>

fun truthy :: "json option \<Rightarrow> bool" where
  "truthy None = False"
| "truthy (Some JNull) = False"
| "truthy (Some (JBool b)) = b"
| "truthy (Some (JNum n)) = (n \<noteq> 0)"
| "truthy (Some (JStr s)) = (s \<noteq> [])"
| "truthy (Some (JArr xs)) = True"
| "truthy (Some (JObj kvs)) = True"

subsection \<open>Paths\<close>

text \<open>
  The functions of Node's \<^verbatim>\<open>path\<close> module that the validators call, in their POSIX
  form, and the directories \<^verbatim>\<open>app.getPath\<close> answers with. \<open>cwd\<close> is the working directory
  of the process, an absolute path, against which \<^verbatim>\<open>path.resolve\<close> resolves a relative
  path.
\<close>

record app_paths =
  userData :: string
  documents :: string
  downloads :: string
  desktop :: string
  cwd :: string

fun split_path :: "string \<Rightarrow> string list" where
  "split_path [] = [[]]"
| "split_path (c # cs) =
     (if c = CHR ''/'' then [] # split_path cs
      else (case split_path cs of [] \<Rightarrow> [[c]] | seg # segs \<Rightarrow> (c # seg) # segs))"

fun join_path :: "string list \<Rightarrow> string" where
  "join_path [] = []"
| "join_path [seg] = seg"
| "join_path (seg # next # segs) = seg @ ''/'' @ join_path (next # segs)"

text \<open>
  \<^verbatim>\<open>normalizeString\<close>: empty segments and \<^verbatim>\<open>.\<close> are dropped; \<^verbatim>\<open>..\<close> removes the segment
  before it, unless there is none or it is itself \<^verbatim>\<open>..\<close>, in which case \<^verbatim>\<open>..\<close> is kept
  when the path may climb above its start (\<open>allowAboveRoot\<close>) and dropped otherwise.
\<close>

fun normalize_segments :: "bool \<Rightarrow> string list \<Rightarrow> string list \<Rightarrow> string list" where
  "normalize_segments allowAboveRoot res [] = res"
| "normalize_segments allowAboveRoot res (seg # segs) =
     (if seg = [] \<or> seg = ''.'' then normalize_segments allowAboveRoot res segs
      else if seg = ''..'' then
        (if res \<noteq> [] \<and> last res \<noteq> ''..'' then normalize_segments allowAboveRoot (butlast res) segs
         else if allowAboveRoot then normalize_segments allowAboveRoot (res @ [''..'']) segs
         else normalize_segments allowAboveRoot res segs)
      else normalize_segments allowAboveRoot (res @ [seg]) segs)"

definition normalizeString :: "string \<Rightarrow> bool \<Rightarrow> string" where
  "normalizeString path allowAboveRoot = join_path (normalize_segments allowAboveRoot [] (split_path path))"

definition isAbsolute :: "string \<Rightarrow> bool" where
  "isAbsolute path = (path \<noteq> [] \<and> hd path = CHR ''/'')"

definition normalize :: "string \<Rightarrow> string" where
  "normalize path =
     (if path = [] then ''.''
      else
        (let trailingSeparator = (last path = CHR ''/'');
             p = normalizeString path (\<not> isAbsolute path)
         in if p = [] then (if isAbsolute path then ''/'' else if trailingSeparator then ''./'' else ''.'')
            else (let q = (if trailingSeparator then p @ ''/'' else p)
                  in if isAbsolute path then ''/'' @ q else q)))"

definition resolve :: "app_paths \<Rightarrow> string \<Rightarrow> string" where
  "resolve env path =
     ''/'' @ normalizeString (if isAbsolute path then path
                             else if path = [] then cwd env
                             else cwd env @ ''/'' @ path) False"

definition basename_of :: "string \<Rightarrow> string" where
  "basename_of path =
     (case filter (\<lambda>seg. seg \<noteq> []) (split_path path) of [] \<Rightarrow> [] | segs \<Rightarrow> last segs)"

text \<open>
  \<^verbatim>\<open>path.extname\<close>: from the last \<^verbatim>\<open>.\<close> of the last segment to its end; empty when there
  is no \<^verbatim>\<open>.\<close>, when the only one is the segment's first character, and for the segment
  \<^verbatim>\<open>..\<close>.
\<close>

definition extname :: "string \<Rightarrow> string" where
  "extname path =
     (let base = basename_of path;
          after_dot = takeWhile (\<lambda>c. c \<noteq> CHR ''.'') (rev base)
      in if base = ''..'' \<or> CHR ''.'' \<notin> set base \<or> length after_dot + 1 = length base then []
         else drop (length base - (length after_dot + 1)) base)"

definition toLowerCase :: "string \<Rightarrow> string" where
  "toLowerCase s =
     map (\<lambda>c. if 65 \<le> (of_char c :: nat) \<and> (of_char c :: nat) \<le> 90 then char_of ((of_char c :: nat) + 32) else c) s"

text \<open>\<^verbatim>\<open>String.prototype.includes\<close> and \<^verbatim>\<open>startsWith\<close>\<close>

fun string_includes :: "string \<Rightarrow> string \<Rightarrow> bool" where
  "string_includes [] sub = (sub = [])"
| "string_includes (c # cs) sub = (prefix sub (c # cs) \<or> string_includes cs sub)"

definition startsWith :: "string \<Rightarrow> string \<Rightarrow> bool" where
  "startsWith s p = prefix p s"

subsection \<open>The two path validators\<close>

datatype validation_error =
  NoSchema string
| TypeError
| MissingField string
| NotAnObject string
| NotAString string
| NotANumber string
| NotABoolean string
| TooLong string nat
| BelowMin string int
| AboveMax string int
| CustomFailed string "json option"
| InvalidExtension "string list"
| PathTraversal
| NotInAllowedDirectory
| NotXlsx
| ExportNotInAllowedDirectory

definition validateFilePath :: "app_paths \<Rightarrow> string \<Rightarrow> string list \<Rightarrow> validation_error + bool" where
  "validateFilePath env filePath allowedExtensions =
     (let normalized = normalize filePath;
          resolved = resolve env normalized;
          ext = toLowerCase (extname resolved)
      in if ext \<notin> set allowedExtensions then Inl (InvalidExtension allowedExtensions)
         else if string_includes normalized ''..'' then Inl PathTraversal
         else
           (let allowedDirs = [userData env, documents env, downloads env, desktop env];
                isAllowed = list_ex (\<lambda>dir. startsWith resolved (resolve env dir)) allowedDirs
            in if \<not> isAllowed then Inl NotInAllowedDirectory else Inr True))"

definition validateExportPath :: "app_paths \<Rightarrow> string \<Rightarrow> validation_error + bool" where
  "validateExportPath env exportPath =
     (let normalized = normalize exportPath;
          resolved = resolve env normalized;
          ext = toLowerCase (extname resolved)
      in if ext \<noteq> ''.xlsx'' then Inl NotXlsx
         else if string_includes normalized ''..'' then Inl PathTraversal
         else
           (let allowedDirs = [documents env, downloads env, desktop env];
                isAllowed = list_ex (\<lambda>dir. startsWith resolved (resolve env dir)) allowedDirs
            in if \<not> isAllowed then Inl ExportNotInAllowedDirectory else Inr True))"

text \<open>
  The notions of the specification of the validators. A path has a parent-directory
  segment. A relative path climbs above the directory it starts from: read segment by
  segment, it meets a \<^verbatim>\<open>..\<close> when it is no deeper than where it started. A location lies
  within a directory: it is the directory or below it, segment by segment. And a location
  lies beside a directory: it is, or is below, an entry of the directory's parent whose
  name begins with the directory's name and goes on, as \<^verbatim>\<open>/home/u/DocumentsBackup\<close> is
  beside \<^verbatim>\<open>/home/u/Documents\<close>.
\<close>

definition has_parent_segment :: "string \<Rightarrow> bool" where
  "has_parent_segment path = (''..'' \<in> set (split_path path))"

fun climbs :: "nat \<Rightarrow> string list \<Rightarrow> bool" where
  "climbs depth [] = False"
| "climbs depth (seg # segs) =
     (if seg = [] \<or> seg = ''.'' then climbs depth segs
      else if seg = ''..'' then (depth = 0 \<or> climbs (depth - 1) segs)
      else climbs (Suc depth) segs)"

definition climbs_above_start :: "string \<Rightarrow> bool" where
  "climbs_above_start path = (\<not> isAbsolute path \<and> climbs 0 (split_path path))"

definition within :: "string \<Rightarrow> string \<Rightarrow> bool" where
  "within location dir = prefix (split_path dir) (split_path location)"

fun beside_segments :: "string list \<Rightarrow> string list \<Rightarrow> bool" where
  "beside_segments [d] (r # rs) = (prefix d r \<and> d \<noteq> r)"
| "beside_segments (d # d' # ds) (r # rs) = (d = r \<and> beside_segments (d' # ds) rs)"
| "beside_segments _ _ = False"

definition beside :: "string \<Rightarrow> string \<Rightarrow> bool" where
  "beside location dir = beside_segments (split_path dir) (split_path location)"

definition env0 :: app_paths where
  "env0 = \<lparr>userData = ''/home/u/.config/wfm-scanner'', documents = ''/home/u/Documents'',
           downloads = ''/home/u/Downloads'', desktop = ''/home/u/Desktop'', cwd = ''/opt/wfm-scanner''\<rparr>"

subsection \<open>Schemas and validateObject\<close>

text \<open>
  The rules of one field of a schema: \<^verbatim>\<open>type\<close>, \<^verbatim>\<open>required\<close> (absent means not
  required), \<^verbatim>\<open>maxLength\<close>, \<^verbatim>\<open>min\<close>, \<^verbatim>\<open>max\<close>, \<^verbatim>\<open>properties\<close> (a schema again) and
  \<^verbatim>\<open>validate\<close>, a function that returns a value or throws. A schema lists its fields in
  the order of \<^verbatim>\<open>Object.entries\<close>.
\<close>

datatype rules =
  Rules (rtype: string) (required: bool) (maxLength: "nat option") (rmin: "int option")
    (rmax: "int option") (properties: "(string \<times> rules) list option")
    (rvalidate: "(json \<Rightarrow> validation_error + json option) option")

type_synonym schema = "(string \<times> rules) list"

text \<open>\<^verbatim>\<open>typeof\<close> of a value that is neither \<^verbatim>\<open>undefined\<close> nor a function.\<close>

fun typeof :: "json \<Rightarrow> string" where
  "typeof JNull = ''object''"
| "typeof (JBool b) = ''boolean''"
| "typeof (JNum n) = ''number''"
| "typeof (JStr s) = ''string''"
| "typeof (JArr xs) = ''object''"
| "typeof (JObj kvs) = ''object''"

text \<open>
  \<^verbatim>\<open>obj[key]\<close> among the own properties of the value: reading a property of
  \<^verbatim>\<open>undefined\<close> or \<^verbatim>\<open>null\<close> throws \<^verbatim>\<open>TypeError\<close>; an array and a string have
  \<^verbatim>\<open>length\<close> and their indices; a missing property is \<^verbatim>\<open>undefined\<close> (\<open>None\<close>).
\<close>

definition index_of_key :: "nat \<Rightarrow> string \<Rightarrow> nat option" where
  "index_of_key n key = (case filter (\<lambda>i. show_nat i = key) [0..<n] of [] \<Rightarrow> None | i # _ \<Rightarrow> Some i)"

fun get_property :: "json option \<Rightarrow> string \<Rightarrow> validation_error + json option" where
  "get_property None key = Inl TypeError"
| "get_property (Some JNull) key = Inl TypeError"
| "get_property (Some (JObj kvs)) key = Inr (map_of kvs key)"
| "get_property (Some (JArr xs)) key =
     Inr (if key = ''length'' then Some (JNum (int (length xs)))
          else map_option (\<lambda>i. xs ! i) (index_of_key (length xs) key))"
| "get_property (Some (JStr s)) key =
     Inr (if key = ''length'' then Some (JNum (int (length s)))
          else map_option (\<lambda>i. JStr [s ! i]) (index_of_key (length s) key))"
| "get_property (Some (JBool b)) key = Inr None"
| "get_property (Some (JNum n)) key = Inr None"

text \<open>\<^verbatim>\<open>value === undefined || value === null\<close>\<close>

definition absent :: "json option \<Rightarrow> bool" where
  "absent value = (value = None \<or> value = Some JNull)"

text \<open>\<^verbatim>\<open>validated[key] = value\<close>, followed by the rest of the loop.\<close>

definition put_field :: "string \<Rightarrow> json \<Rightarrow> validation_error + (string \<times> json) list \<Rightarrow>
    validation_error + (string \<times> json) list" where
  "put_field key value later =
     (case later of Inl e \<Rightarrow> Inl e | Inr validated \<Rightarrow> Inr ((key, value) # validated))"

text \<open>The checks of one present value, up to the recursion: type, length, bounds.\<close>

definition check_value :: "string \<Rightarrow> rules \<Rightarrow> json \<Rightarrow> validation_error option" where
  "check_value key r value =
     (if rtype r = ''object'' \<and> typeof value \<noteq> ''object'' then Some (NotAnObject key)
      else if rtype r = ''string'' \<and> typeof value \<noteq> ''string'' then Some (NotAString key)
      else if rtype r = ''number'' \<and> typeof value \<noteq> ''number'' then Some (NotANumber key)
      else if rtype r = ''boolean'' \<and> typeof value \<noteq> ''boolean'' then Some (NotABoolean key)
      else
        (case (value, maxLength r) of
           (JStr s, Some m) \<Rightarrow>
             if rtype r = ''string'' \<and> m \<noteq> 0 \<and> length s > m then Some (TooLong key m)
             else None
         | (JNum n, _) \<Rightarrow>
             if rtype r = ''number'' then
               (case rmin r of
                  Some lo \<Rightarrow>
                    if n < lo then Some (BelowMin key lo)
                    else (case rmax r of
                            Some hi \<Rightarrow> if n > hi then Some (AboveMax key hi) else None
                          | None \<Rightarrow> None)
                | None \<Rightarrow>
                    (case rmax r of
                       Some hi \<Rightarrow> if n > hi then Some (AboveMax key hi) else None
                     | None \<Rightarrow> None))
             else None
         | _ \<Rightarrow> None))"

text \<open>
  The custom validation of a value: a result other than \<^verbatim>\<open>true\<close> and \<^verbatim>\<open>undefined\<close>
  is an error, and so is what the function throws.
\<close>

definition custom_validation :: "string \<Rightarrow> rules \<Rightarrow> json \<Rightarrow> validation_error option" where
  "custom_validation key r value =
     (case rvalidate r of
        None \<Rightarrow> None
      | Some f \<Rightarrow>
          (case f value of
             Inl e \<Rightarrow> Some e
           | Inr validationResult \<Rightarrow>
               if validationResult \<noteq> Some (JBool True) \<and> validationResult \<noteq> None
               then Some (CustomFailed key validationResult)
               else None))"

fun validateObject :: "json option \<Rightarrow> schema \<Rightarrow> validation_error + (string \<times> json) list" where
  "validateObject obj [] = Inr []"
| "validateObject obj ((key, Rules ty req ml lo hi props f) # rest) =
     (case get_property obj key of
        Inl e \<Rightarrow> Inl e
      | Inr value \<Rightarrow>
          if req \<and> absent value then Inl (MissingField key)
          else if \<not> req \<and> absent value then validateObject obj rest
          else
            (case value of
               None \<Rightarrow> validateObject obj rest
             | Some v \<Rightarrow>
                 (case check_value key (Rules ty req ml lo hi props f) v of
                    Some e \<Rightarrow> Inl e
                  | None \<Rightarrow>
                      (case props of
                         Some sub_schema \<Rightarrow>
                           if ty = ''object'' then
                             (case validateObject (Some v) sub_schema of
                                Inl e \<Rightarrow> Inl e
                              | Inr sub \<Rightarrow> put_field key (JObj sub) (validateObject obj rest))
                           else
                             (case custom_validation key (Rules ty req ml lo hi props f) v of
                                Some e \<Rightarrow> Inl e
                              | None \<Rightarrow> put_field key v (validateObject obj rest))
                       | None \<Rightarrow>
                           (case custom_validation key (Rules ty req ml lo hi props f) v of
                              Some e \<Rightarrow> Inl e
                            | None \<Rightarrow> put_field key v (validateObject obj rest))))))"

text \<open>
  The three schemas. The custom validators check the type themselves no further: the type
  check has run before them.
\<close>

definition file_path_rule :: "app_paths \<Rightarrow> string list \<Rightarrow> json \<Rightarrow> validation_error + json option" where
  "file_path_rule env allowedExtensions value =
     (case value of
        JStr filePath \<Rightarrow>
          (case validateFilePath env filePath allowedExtensions of
             Inl e \<Rightarrow> Inl e
           | Inr ok \<Rightarrow> Inr (Some (JBool ok)))
      | _ \<Rightarrow> Inl TypeError)"

definition optional_file_path_rule :: "app_paths \<Rightarrow> string list \<Rightarrow> json \<Rightarrow> validation_error + json option" where
  "optional_file_path_rule env allowedExtensions value =
     (if \<not> truthy (Some value) then Inr (Some (JBool True))
      else file_path_rule env allowedExtensions value)"

definition export_path_rule :: "app_paths \<Rightarrow> json \<Rightarrow> validation_error + json option" where
  "export_path_rule env value =
     (case value of
        JStr exportPath \<Rightarrow>
          (case validateExportPath env exportPath of
             Inl e \<Rightarrow> Inl e
           | Inr ok \<Rightarrow> Inr (Some (JBool ok)))
      | _ \<Rightarrow> Inl TypeError)"

definition number_between :: "int \<Rightarrow> int \<Rightarrow> rules" where
  "number_between lo hi = Rules ''number'' False None (Some lo) (Some hi) None None"

text \<open>
  What \<^verbatim>\<open>this.schemas[channel]\<close> is, by its \<^verbatim>\<open>Object.entries\<close>: one of the three schemas,
  an inherited member, which has no entries, or \<^verbatim>\<open>undefined\<close> (\<open>None\<close>).
\<close>

definition schemas :: "app_paths \<Rightarrow> string \<Rightarrow> schema option" where
  "schemas env channel =
     (if channel = ''start-scan'' then
        Some [(''storeMappingFile'',
                 Rules ''string'' True (Some 500) None None None (Some (file_path_rule env [''.csv''])))
             ,(''itemListFile'',
                 Rules ''string'' False (Some 500) None None None
                   (Some (optional_file_path_rule env [''.csv'', ''.xlsx''])))
             ,(''settings'',
                 Rules ''object'' True None None None
                   (Some [(''delayBetweenItems'', number_between 500 60000),
                          (''delayBetweenStores'', number_between 1000 120000),
                          (''pageTimeout'', number_between 5000 300000),
                          (''maxRetries'', number_between 1 10),
                          (''maxConcurrentAgents'', number_between 1 31),
                          (''headless'', Rules ''boolean'' False None None None None None)])
                   None)]
      else if channel = ''export-results'' then
        Some [(''exportPath'',
                 Rules ''string'' True (Some 500) None None None (Some (export_path_rule env)))]
      else if channel = ''save-config'' then
        Some [(''config'', Rules ''object'' True None None None None None)]
      else if channel \<in> set Object_prototype then Some []
      else None)"

definition validate :: "app_paths \<Rightarrow> string \<Rightarrow> json option \<Rightarrow> validation_error + (string \<times> json) list" where
  "validate env channel data =
     (case schemas env channel of
        None \<Rightarrow> Inl (NoSchema channel)
      | Some schema \<Rightarrow> validateObject data schema)"

text \<open>
  A validated payload holds only declared fields: each of its keys is a key of the
  schema, and under a key whose rules have a sub-schema the value is an object that
  again holds only fields that sub-schema declares.
\<close>

fun only_declared :: "schema \<Rightarrow> (string \<times> json) list \<Rightarrow> bool"
  and declared_value :: "rules \<Rightarrow> json \<Rightarrow> bool" where
  "only_declared schema payload =
     list_all (\<lambda>(k, v). list_ex (\<lambda>(key, r). key = k \<and> declared_value r v) schema) payload"
| "declared_value (Rules ty req ml lo hi props f) v =
     (case props of
        None \<Rightarrow> True
      | Some sub_schema \<Rightarrow>
          ty \<noteq> ''object'' \<or> (case v of JObj sub \<Rightarrow> only_declared sub_schema sub | _ \<Rightarrow> False))"

text \<open>
  Two payloads have the same declared fields: under each key of the schema they hold the
  same value, or, where the rules are of type \<^verbatim>\<open>object\<close> with a sub-schema, two objects
  that again have the same declared fields.
\<close>

fun same_declared :: "schema \<Rightarrow> json option \<Rightarrow> json option \<Rightarrow> bool" where
  "same_declared [] a b = True"
| "same_declared ((key, Rules ty req ml lo hi props f) # rest) a b =
     ((get_property a key = get_property b key \<or>
       (ty = ''object'' \<and>
        (case props of
           None \<Rightarrow> False
         | Some sub_schema \<Rightarrow>
             (case get_property a key of
                Inr (Some (JObj x)) \<Rightarrow>
                  (case get_property b key of
                     Inr (Some (JObj y)) \<Rightarrow> same_declared sub_schema (Some (JObj x)) (Some (JObj y))
                   | _ \<Rightarrow> False)
              | _ \<Rightarrow> False)))) \<and>
      same_declared rest a b)"

definition scan_request :: json where
  "scan_request =
     JObj [(''storeMappingFile'', JStr ''/home/u/Documents/stores.csv''),
           (''debug'', JBool True),
           (''settings'', JObj [(''maxRetries'', JNum 3), (''headless'', JBool True),
                                (''proxy'', JStr ''10.0.0.1'')])]"

definition scan_request_declared :: json where
  "scan_request_declared =
     JObj [(''storeMappingFile'', JStr ''/home/u/Documents/stores.csv''),
           (''settings'', JObj [(''maxRetries'', JNum 3), (''headless'', JBool True)])]"

subsection \<open>A concrete store\<close>

definition sample_result :: "nat \<Rightarrow> string \<Rightarrow> scan_result" where
  "sample_result i sid =
     \<lparr>r_id = i, session_id = sid, store = ''Downtown'', asin = ''B08X4FN2K9'',
      success = 1, timestamp = ''2026-11-01 09:30:07'', extracted_name = Some ''Oat milk'',
      name = Some ''Oat milk'', price = Some ''3.99'', image_url = None, product_url = None,
      load_time = Some 812, error_message = None, retry_count = 0,
      variations = Some ''[]'', bundle_parts = Some ''[]'',
      extraction_details = Some ''{}'', merchandising_data = Some ''{}''\<rparr>"

definition sample_session :: "string \<Rightarrow> string \<Rightarrow> scan_session" where
  "sample_session sid started =
     \<lparr>s_id = sid, started_at = started, completed_at = None,
      s_total_items = 5, processed_items = 0, success_count = 0, failed_count = 0,
      status = ''running''\<rparr>"

definition sample_progress :: "string \<Rightarrow> scan_progress" where
  "sample_progress sid =
     \<lparr>p_session_id = sid, current_store = Some ''Downtown'', current_item = Some 1,
      p_total_items = Some 5, last_updated = ''2026-11-01 09:30:07''\<rparr>"

text \<open>One running session with one result and its progress row.\<close>

definition db0 :: database where
  "db0 = \<lparr>tbl = \<lparr>scan_sessions = [sample_session ''S1'' ''2026-11-01 09:30:00''],
                  scan_results = [sample_result 1 ''S1''],
                  scan_progress = [sample_progress ''S1''],
                  sqlite_sequence = 1\<rparr>,
           journal = None\<rparr>"

text \<open>A session of 1 October and a session of 1 November, each with a result and a progress row.\<close>

definition db_old_new :: database where
  "db_old_new = \<lparr>tbl = \<lparr>scan_sessions = [sample_session ''OLD'' ''2026-10-01 08:00:00'',
                                          sample_session ''S1'' ''2026-11-01 09:30:00''],
                         scan_results = [sample_result 1 ''OLD'', sample_result 2 ''S1''],
                         scan_progress = [sample_progress ''OLD'', sample_progress ''S1''],
                         sqlite_sequence = 2\<rparr>,
                  journal = None\<rparr>"

text \<open>Three sessions started within the same second.\<close>

definition db_same_second :: database where
  "db_same_second = \<lparr>tbl = \<lparr>scan_sessions = [sample_session ''A'' ''2026-11-01 09:30:00'',
                                              sample_session ''B'' ''2026-11-01 09:30:00'',
                                              sample_session ''C'' ''2026-11-01 09:30:00''],
                             scan_results = [sample_result 1 ''A'', sample_result 2 ''B'',
                                             sample_result 3 ''C''],
                             scan_progress = [],
                             sqlite_sequence = 3\<rparr>,
                      journal = None\<rparr>"

text \<open>
  The days before 2 November 2026, 10:59 UTC, back to 1 October, and the day 3000000 days
  after it.
\<close>

definition before_nov2 :: "int \<Rightarrow> utc_time" where
  "before_nov2 d =
     (if d = - 3000000 then \<lparr>year = 10240, month = 7, day = 23, hour = 10, minute = 59, second = 0, millis = 0\<rparr>
      else if d < 2 then \<lparr>year = 2026, month = 11, day = nat (2 - d), hour = 10, minute = 59, second = 0, millis = 0\<rparr>
      else \<lparr>year = 2026, month = 10, day = nat (33 - d), hour = 10, minute = 59, second = 0, millis = 0\<rparr>)"

definition oct1 :: utc_time where
  "oct1 = \<lparr>year = 2026, month = 10, day = 1, hour = 8, minute = 0, second = 0, millis = 0\<rparr>"

definition nov1 :: utc_time where
  "nov1 = \<lparr>year = 2026, month = 11, day = 1, hour = 9, minute = 30, second = 0, millis = 0\<rparr>"

text \<open>A result without a store, and a complete one.\<close>

definition no_store :: result where
  "no_store =
     \<lparr>res_store = None, res_asin = Some ''B08X4FN2K9'', res_success = VBool True,
      extractedName = Some ''Oat milk'', res_name = Some ''Oat milk'', res_price = Some ''3.99'',
      imageUrl = None, productUrl = None, loadTime = Some 812, errorMessage = None,
      retryCount = None, res_variations = VUndefined, res_bundleParts = VUndefined,
      res_extractionDetails = VUndefined, res_merchandisingData = VUndefined\<rparr>"

definition oat_milk :: result where
  "oat_milk =
     \<lparr>res_store = Some ''Downtown'', res_asin = Some ''B08X4FN2K9'', res_success = VBool True,
      extractedName = Some ''Oat milk'', res_name = Some ''Oat milk'', res_price = Some ''3.99'',
      imageUrl = None, productUrl = None, loadTime = Some 812, errorMessage = None,
      retryCount = None,
      res_variations =
        VArr [VObj [(''size'', VStr ''1l''), (''count'', VNum (Decimal 6 0)), (''price'', VNum (Decimal 399 (- 2)))]],
      res_bundleParts = VUndefined,
      res_extractionDetails = VObj [(''method'', VStr ''dom''), (''tries'', VNum (Decimal 2 0))],
      res_merchandisingData = VUndefined\<rparr>"

section \<open>Properties of the timestamp texts\<close>

lemma length_zero_pad [simp]: "length (zero_pad w n) = w"
  by (induction w arbitrary: n) simp_all

lemma append_less_append:
  "length xs = length ys \<Longrightarrow> (xs @ u < ys @ v) = (xs < ys \<or> xs = ys \<and> u < v)"
  by (induction xs ys rule: list_induct2) auto

lemma digit_less: "a < 10 \<Longrightarrow> b < 10 \<Longrightarrow> (digit a < digit b) = (a < b)"
  by (simp add: digit_def less_char_def)

lemma digit_eq: "a < 10 \<Longrightarrow> b < 10 \<Longrightarrow> (digit a = digit b) = (a = b)"
  using digit_less [of a b] digit_less [of b a] by (metis less_irrefl nat_neq_iff)

lemma div10_less: "(n::nat) < 10 * k \<Longrightarrow> n div 10 < k"
  by arith

lemma lex10:
  "r < 10 \<Longrightarrow> s < 10 \<Longrightarrow> (a < b \<or> a = b \<and> r < s) = (10 * a + r < 10 * b + (s::nat))"
  by arith

lemma div_mod_10_less:
  "((n::nat) div 10 < m div 10 \<or> n div 10 = m div 10 \<and> n mod 10 < m mod 10) = (n < m)"
proof -
  have "(10 * (n div 10) + n mod 10 < 10 * (m div 10) + m mod 10) = (n < m)"
    by simp
  then show ?thesis
    using lex10 [of "n mod 10" "m mod 10" "n div 10" "m div 10"] by simp
qed

lemma div_mod_10_eq: "((n::nat) div 10 = m div 10 \<and> n mod 10 = m mod 10) = (n = m)"
proof
  assume "n div 10 = m div 10 \<and> n mod 10 = m mod 10"
  then have "10 * (n div 10) + n mod 10 = 10 * (m div 10) + m mod 10"
    by simp
  then show "n = m"
    by simp
next
  assume "n = m"
  then show "n div 10 = m div 10 \<and> n mod 10 = m mod 10"
    by simp
qed

lemma zero_pad_eq:
  "n < 10 ^ w \<Longrightarrow> m < 10 ^ w \<Longrightarrow> (zero_pad w n = zero_pad w m) = (n = m)"
proof (induction w arbitrary: n m)
  case 0
  then show ?case by simp
next
  case (Suc w)
  have n: "n div 10 < 10 ^ w" and m: "m div 10 < 10 ^ w"
    using Suc.prems by (simp_all add: div10_less)
  have "(zero_pad (Suc w) n = zero_pad (Suc w) m) =
        (n div 10 = m div 10 \<and> n mod 10 = m mod 10)"
    by (simp add: Suc.IH [OF n m] digit_eq)
  then show ?case
    by (simp only: div_mod_10_eq)
qed

lemma zero_pad_less:
  "n < 10 ^ w \<Longrightarrow> m < 10 ^ w \<Longrightarrow> (zero_pad w n < zero_pad w m) = (n < m)"
proof (induction w arbitrary: n m)
  case 0
  then show ?case by simp
next
  case (Suc w)
  have n: "n div 10 < 10 ^ w" and m: "m div 10 < 10 ^ w"
    using Suc.prems by (simp_all add: div10_less)
  have "(zero_pad (Suc w) n < zero_pad (Suc w) m) =
        (n div 10 < m div 10 \<or> n div 10 = m div 10 \<and> n mod 10 < m mod 10)"
    by (simp add: append_less_append Suc.IH [OF n m] zero_pad_eq [OF n m] digit_less)
  then show ?case
    by (simp only: div_mod_10_less)
qed

lemma timestamp_text_less:
  assumes "valid_time a" and "valid_time c"
  shows "(CURRENT_TIMESTAMP a < toISOString c) = ([year a, month a, day a] \<le> [year c, month c, day c])"
proof -
  have ya: "year a < 10 ^ 4" and yc: "year c < 10 ^ 4"
    and ma: "month a < 10 ^ 2" and mc: "month c < 10 ^ 2"
    and da: "day a < 10 ^ 2" and dc: "day c < 10 ^ 2"
    using assms by (simp_all add: valid_time_def)
  have sp: "CHR '' '' < CHR ''T''"
    by (simp add: less_char_def)
  have "year c \<le> 9999"
    using assms(2) by (simp add: valid_time_def)
  then show ?thesis
    unfolding CURRENT_TIMESTAMP_def toISOString_def
    using sp
    by (simp add: append_less_append zero_pad_less [OF ya yc] zero_pad_eq [OF ya yc]
        zero_pad_less [OF ma mc] zero_pad_eq [OF ma mc]
        zero_pad_less [OF da dc] zero_pad_eq [OF da dc] del: zero_pad.simps) 
qed

lemma earlier_date_le:
  "earlier a c \<Longrightarrow> [year a, month a, day a] \<le> [year c, month c, day c]"
  by (auto simp: earlier_def time_fields_def split: if_splits)

lemma earlier_text_less:
  "valid_time a \<Longrightarrow> valid_time c \<Longrightarrow> earlier a c \<Longrightarrow> CURRENT_TIMESTAMP a < toISOString c"
  using earlier_date_le [of a c] by (simp only: timestamp_text_less)

lemma zero_pad_numeral:
  "zero_pad (numeral k) n = zero_pad (pred_numeral k) (n div 10) @ [digit (n mod 10)]"
  by (simp add: numeral_eq_Suc [of k])

lemma digit_chars:
  "digit 0 = CHR ''0''" "digit (Suc 0) = CHR ''1''" "digit 2 = CHR ''2''" "digit 3 = CHR ''3''"
  "digit 4 = CHR ''4''" "digit 5 = CHR ''5''" "digit 6 = CHR ''6''" "digit 7 = CHR ''7''"
  "digit 8 = CHR ''8''" "digit 9 = CHR ''9''"
  by code_simp+

section \<open>Properties of the retention operations\<close>

lemma length_filter_removed:
  "length (filter P xs) = length xs - length (filter (\<lambda>x. \<not> P x) xs)"
  using sum_length_filter_compl [of P xs] by simp

lemma cleanupOldSessions_eq:
  "cleanupOldSessions days_ago daysToKeep db =
     (Resolved \<lparr>deletedSessions = length (filter (\<lambda>s. started_at s < toISOString (days_ago daysToKeep)) (scan_sessions (tbl db))),
                deletedResults = length (filter (\<lambda>r. session_id r \<in> set (sessions_started_before (toISOString (days_ago daysToKeep)) (tbl db)))
                                   (scan_results (tbl db)))\<rparr>,
      db\<lparr>tbl := (tbl db)\<lparr>
          scan_results := filter (\<lambda>r. session_id r \<notin> set (sessions_started_before (toISOString (days_ago daysToKeep)) (tbl db)))
                            (scan_results (tbl db)),
          scan_progress := filter (\<lambda>p. p_session_id p \<notin> set (sessions_started_before (toISOString (days_ago daysToKeep)) (tbl db)))
                            (scan_progress (tbl db)),
          scan_sessions := filter (\<lambda>s. \<not> started_at s < toISOString (days_ago daysToKeep)) (scan_sessions (tbl db))\<rparr>\<rparr>)"
  by (simp add: cleanupOldSessions_def delete_results_def delete_progress_def delete_sessions_def
      Let_def sessions_started_before_def)

text \<open>
  What \<open>cleanupOldSessions\<close> does when the cutoff instant, now minus \<open>daysToKeep\<close> days, has
  a year of at most four digits, which \<^verbatim>\<open>toISOString\<close> prints in its plain form: no
  remaining session whose \<^verbatim>\<open>started_at\<close> is the \<^verbatim>\<open>CURRENT_TIMESTAMP\<close> text of an instant
  is earlier than the cutoff; no remaining result or progress row names a session that was
  deleted; and the promise resolves with the numbers of sessions and of results deleted.
\<close>

lemma cleanupOldSessions_four_digit_year:
  assumes "valid_time (days_ago daysToKeep)"
  shows "(\<forall>s \<in> set (scan_sessions (tbl (snd (cleanupOldSessions days_ago daysToKeep db)))).
            \<forall>t. valid_time t \<and> started_at s = CURRENT_TIMESTAMP t \<longrightarrow> \<not> earlier t (days_ago daysToKeep)) \<and>
         (\<forall>s \<in> set (scan_sessions (tbl db)).
            s \<notin> set (scan_sessions (tbl (snd (cleanupOldSessions days_ago daysToKeep db)))) \<longrightarrow>
            (\<forall>r \<in> set (scan_results (tbl (snd (cleanupOldSessions days_ago daysToKeep db)))). session_id r \<noteq> s_id s) \<and>
            (\<forall>p \<in> set (scan_progress (tbl (snd (cleanupOldSessions days_ago daysToKeep db)))). p_session_id p \<noteq> s_id s)) \<and>
         fst (cleanupOldSessions days_ago daysToKeep db) =
           Resolved \<lparr>deletedSessions = length (scan_sessions (tbl db)) -
                        length (scan_sessions (tbl (snd (cleanupOldSessions days_ago daysToKeep db)))),
                     deletedResults = length (scan_results (tbl db)) -
                        length (scan_results (tbl (snd (cleanupOldSessions days_ago daysToKeep db))))\<rparr>"
proof -
  let ?iso = "toISOString (days_ago daysToKeep)"
  let ?db' = "snd (cleanupOldSessions days_ago daysToKeep db)"
  have sessions: "scan_sessions (tbl ?db') = filter (\<lambda>s. \<not> started_at s < ?iso) (scan_sessions (tbl db))"
    and results: "scan_results (tbl ?db') =
        filter (\<lambda>r. session_id r \<notin> set (sessions_started_before ?iso (tbl db))) (scan_results (tbl db))"
    and progress: "scan_progress (tbl ?db') =
        filter (\<lambda>p. p_session_id p \<notin> set (sessions_started_before ?iso (tbl db))) (scan_progress (tbl db))"
    by (simp_all add: cleanupOldSessions_eq)
  have older: "\<forall>s \<in> set (scan_sessions (tbl ?db')).
      \<forall>t. valid_time t \<and> started_at s = CURRENT_TIMESTAMP t \<longrightarrow> \<not> earlier t (days_ago daysToKeep)"
  proof (intro ballI allI impI)
    fix s t
    assume s: "s \<in> set (scan_sessions (tbl ?db'))"
      and t: "valid_time t \<and> started_at s = CURRENT_TIMESTAMP t"
    from s have "\<not> started_at s < ?iso"
      by (simp add: sessions)
    with t have "\<not> CURRENT_TIMESTAMP t < ?iso"
      by simp
    with t assms show "\<not> earlier t (days_ago daysToKeep)"
      using earlier_text_less [of t "days_ago daysToKeep"] by blast
  qed
  have rows: "\<forall>s \<in> set (scan_sessions (tbl db)). s \<notin> set (scan_sessions (tbl ?db')) \<longrightarrow>
      (\<forall>r \<in> set (scan_results (tbl ?db')). session_id r \<noteq> s_id s) \<and>
      (\<forall>p \<in> set (scan_progress (tbl ?db')). p_session_id p \<noteq> s_id s)"
  proof (intro ballI impI)
    fix s
    assume s: "s \<in> set (scan_sessions (tbl db))" and gone: "s \<notin> set (scan_sessions (tbl ?db'))"
    then have "started_at s < ?iso"
      by (simp add: sessions)
    with s have old: "s_id s \<in> set (sessions_started_before ?iso (tbl db))"
      by (simp add: sessions_started_before_def)
    show "(\<forall>r \<in> set (scan_results (tbl ?db')). session_id r \<noteq> s_id s) \<and>
          (\<forall>p \<in> set (scan_progress (tbl ?db')). p_session_id p \<noteq> s_id s)"
      using old by (auto simp: results progress)
  qed
  have counts: "fst (cleanupOldSessions days_ago daysToKeep db) =
      Resolved \<lparr>deletedSessions = length (scan_sessions (tbl db)) - length (scan_sessions (tbl ?db')),
                deletedResults = length (scan_results (tbl db)) - length (scan_results (tbl ?db'))\<rparr>"
    unfolding sessions results
    by (simp add: cleanupOldSessions_eq length_filter_removed [symmetric])
  show ?thesis
    using older rows counts by blast
qed

text \<open>
  What \<open>keepLatestScans\<close> does: with fewer sessions than \<open>count\<close> it changes nothing;
  otherwise it retains the sessions that did not start before the boundary session.
\<close>

lemma keepLatestScans_fewer:
  assumes "0 < count" and "length (scan_sessions (tbl db)) < nat count"
  shows "keepLatestScans count db = (Resolved \<lparr>deletedSessions = 0, deletedResults = 0\<rparr>, db)"
proof -
  have "select_cutoff_id count db = Inr None"
    using assms by (simp add: select_cutoff_id_def Let_def)
  then show ?thesis
    by (simp add: keepLatestScans_def)
qed

lemma keepLatestScans_retains:
  assumes "select_cutoff_id count db = Inr (Some cutoffId)"
    and "find (\<lambda>c. s_id c = cutoffId) (scan_sessions (tbl db)) = Some boundary"
  shows "scan_sessions (tbl (snd (keepLatestScans count db))) =
           filter (\<lambda>s. \<not> started_at s < started_at boundary) (scan_sessions (tbl db))"
  using assms
  by (simp add: keepLatestScans_def delete_results_def delete_progress_def delete_sessions_def
      Let_def started_before_session_def)

text \<open>
  With \<open>count = 0\<close> the offset is \<open>-1\<close>, read as 0: the boundary is the newest session,
  which is retained.
\<close>

lemma keepLatestScans_zero:
  "fst (keepLatestScans 0 db_old_new) = Resolved \<lparr>deletedSessions = 1, deletedResults = 1\<rparr> \<and>
   map s_id (scan_sessions (tbl (snd (keepLatestScans 0 db_old_new)))) = [''S1'']"
  by code_simp

section \<open>Properties of the rate limiter\<close>

lemma fold_min_in: "fold min ts (t::int) \<in> set (t # ts)"
proof (induction ts arbitrary: t)
  case Nil
  then show ?case by simp
next
  case (Cons a ts)
  define m where "m = min a t"
  have step: "fold min ts m \<in> set (m # ts)"
    by (rule Cons.IH)
  have "m = a \<or> m = t"
    by (simp add: m_def min_def)
  then have "fold min ts m \<in> set (t # a # ts)"
    using step by auto
  then show ?case
    by (simp add: m_def)
qed

lemma oldest_in: "oldest ts = Some t \<Longrightarrow> t \<in> set ts"
  using fold_min_in by (cases ts) (auto simp: oldest_def)

lemma oldest_Nil: "(oldest ts = None) = (ts = [])"
  by (cases ts) (simp_all add: oldest_def)

lemma ceil_seconds_pos: "0 < ms \<Longrightarrow> 0 < ceil_seconds ms"
  unfolding ceil_seconds_def by linarith

lemma ceil_seconds_le: "ms \<le> 1000 * k \<Longrightarrow> ceil_seconds ms \<le> k"
  unfolding ceil_seconds_def by linarith

lemma limits_table: "limits channel = Some (Limit lim) \<Longrightarrow> windowMs lim = 60000 \<and> 1 \<le> maxCalls lim"
  by (auto simp: limits_def split: if_splits)

lemma resetTime_bounds:
  assumes "validCalls \<noteq> []"
    and "\<forall>t \<in> set validCalls. now - t < windowMs lim"
  shows "\<exists>r. resetTime lim now validCalls = Seconds r \<and> 0 < r \<and>
           ((\<forall>t \<in> set validCalls. t \<le> now) \<and> windowMs lim \<le> 1000 * k \<longrightarrow> r \<le> k)"
proof -
  obtain t where t: "oldest validCalls = Some t"
    using assms(1) oldest_Nil [of validCalls] by (cases "oldest validCalls") auto
  then have mem: "t \<in> set validCalls"
    by (rule oldest_in)
  then have "0 < windowMs lim - (now - t)"
    using assms(2) by auto
  then have pos: "0 < ceil_seconds (windowMs lim - (now - t))"
    by (rule ceil_seconds_pos)
  have "ceil_seconds (windowMs lim - (now - t)) \<le> k"
    if "\<forall>t \<in> set validCalls. t \<le> now" and "windowMs lim \<le> 1000 * k"
  proof (rule ceil_seconds_le)
    from that mem have "t \<le> now" by blast
    with that(2) show "windowMs lim - (now - t) \<le> 1000 * k" by linarith
  qed
  with pos show ?thesis
    by (simp add: resetTime_def t)
qed

lemma checkLimit_declared:
  assumes "limits channel = Some (Limit lim)"
  shows
   "(let recorded = (case calls channel of None \<Rightarrow> [] | Some ts \<Rightarrow> ts);
         validCalls = filter (\<lambda>time. now - time < windowMs lim) recorded
     in (\<forall>time \<in> set recorded. windowMs lim \<le> now - time \<longrightarrow> time \<notin> set validCalls) \<and>
        (maxCalls lim \<le> length validCalls \<longrightarrow>
           (\<exists>r. checkLimit now channel calls =
                  (Inl (RateLimitExceeded channel (Seconds r)), calls(channel \<mapsto> validCalls)) \<and>
                0 < r \<and> ((\<forall>time \<in> set recorded. time \<le> now) \<longrightarrow> r \<le> windowMs lim div 1000))) \<and>
        (length validCalls < maxCalls lim \<longrightarrow>
           checkLimit now channel calls = (Inr True, calls(channel \<mapsto> validCalls @ [now]))))"
proof -
  define recorded where "recorded = (case calls channel of None \<Rightarrow> [] | Some ts \<Rightarrow> ts)"
  define validCalls where "validCalls = filter (\<lambda>time. now - time < windowMs lim) recorded"
  have table: "windowMs lim = 60000" "1 \<le> maxCalls lim"
    using limits_table [OF assms] by simp_all
  have run: "checkLimit now channel calls =
      (if maxCalls lim \<le> length validCalls
       then (Inl (RateLimitExceeded channel (resetTime lim now validCalls)), calls(channel \<mapsto> validCalls))
       else (Inr True, calls(channel \<mapsto> validCalls @ [now])))"
    by (simp add: checkLimit_def assms Let_def recorded_def validCalls_def)
  have discard: "\<forall>time \<in> set recorded. windowMs lim \<le> now - time \<longrightarrow> time \<notin> set validCalls"
    by (auto simp: validCalls_def)
  have refuse: "\<exists>r. checkLimit now channel calls =
        (Inl (RateLimitExceeded channel (Seconds r)), calls(channel \<mapsto> validCalls)) \<and>
      0 < r \<and> ((\<forall>time \<in> set recorded. time \<le> now) \<longrightarrow> r \<le> windowMs lim div 1000)"
    if full: "maxCalls lim \<le> length validCalls"
  proof -
    have ne: "validCalls \<noteq> []"
      using full table(2) by auto
    have inside: "\<forall>t \<in> set validCalls. now - t < windowMs lim"
      by (simp add: validCalls_def)
    obtain r where r: "resetTime lim now validCalls = Seconds r" "0 < r"
      "(\<forall>t \<in> set validCalls. t \<le> now) \<and> windowMs lim \<le> 1000 * 60 \<longrightarrow> r \<le> 60"
      using resetTime_bounds [OF ne inside, of 60] by blast
    have "(\<forall>time \<in> set recorded. time \<le> now) \<longrightarrow> r \<le> windowMs lim div 1000"
      using r(3) table(1) by (auto simp: validCalls_def)
    then show ?thesis
      using r(1,2) full by (auto simp: run)
  qed
  have allow: "checkLimit now channel calls = (Inr True, calls(channel \<mapsto> validCalls @ [now]))"
    if "length validCalls < maxCalls lim"
    using that by (simp add: run)
  show ?thesis
    using discard refuse allow
    unfolding Let_def recorded_def [symmetric] validCalls_def [symmetric] by blast
qed


lemma start_scan_limit: "limits ''start-scan'' = Some (Limit \<lparr>maxCalls = 1, windowMs = 60000\<rparr>)"
  by (simp add: limits_def)

lemma start_scan_window:
  assumes first: "fst (checkLimit t0 ''start-scan'' calls) = Inr True"
    and "t0 \<le> t1" and "t1 < t0 + 60000" and "t0 + 60000 \<le> t2"
  shows "(\<exists>r. checkLimit t1 ''start-scan'' (snd (checkLimit t0 ''start-scan'' calls)) =
              (Inl (RateLimitExceeded ''start-scan'' (Seconds r)), snd (checkLimit t0 ''start-scan'' calls)) \<and>
            0 < r \<and> r \<le> 60) \<and>
         fst (checkLimit t2 ''start-scan'' (snd (checkLimit t0 ''start-scan'' calls))) = Inr True"
proof -
  let ?lim = "\<lparr>maxCalls = 1, windowMs = 60000\<rparr>"
  define recorded where "recorded = (case calls ''start-scan'' of None \<Rightarrow> [] | Some ts \<Rightarrow> ts)"
  define valid0 where "valid0 = filter (\<lambda>time. t0 - time < 60000) recorded"
  have run0: "checkLimit t0 ''start-scan'' calls =
      (if 1 \<le> length valid0
       then (Inl (RateLimitExceeded ''start-scan'' (resetTime ?lim t0 valid0)), calls(''start-scan'' \<mapsto> valid0))
       else (Inr True, calls(''start-scan'' \<mapsto> valid0 @ [t0])))"
    by (simp add: checkLimit_def start_scan_limit Let_def recorded_def valid0_def)
  have empty: "valid0 = []"
    using first by (cases valid0) (simp_all add: run0)
  define calls1 where "calls1 = calls(''start-scan'' \<mapsto> [t0])"
  have after: "snd (checkLimit t0 ''start-scan'' calls) = calls1"
    by (simp add: run0 empty calls1_def)
  have same: "calls1(''start-scan'' \<mapsto> [t0]) = calls1"
    by (simp add: calls1_def)
  have rt: "resetTime lim t1 [t0] = Seconds (ceil_seconds (windowMs lim - (t1 - t0)))" for lim
    by (simp add: resetTime_def oldest_def)
  have second: "checkLimit t1 ''start-scan'' calls1 =
      (Inl (RateLimitExceeded ''start-scan'' (Seconds (ceil_seconds (60000 - (t1 - t0))))), calls1)"
    using assms(3) by (simp add: checkLimit_def start_scan_limit Let_def calls1_def rt)
  have pos: "0 < ceil_seconds (60000 - (t1 - t0))"
    using assms(3) by (intro ceil_seconds_pos) linarith
  have le: "ceil_seconds (60000 - (t1 - t0)) \<le> 60"
    using assms(2) by (intro ceil_seconds_le) linarith
  have third: "fst (checkLimit t2 ''start-scan'' calls1) = Inr True"
    using assms(4) by (simp add: checkLimit_def start_scan_limit Let_def calls1_def)
  show ?thesis
    using second pos le third by (simp add: after)
qed

text \<open>
  A name that \<^verbatim>\<open>this.limits\<close> has no member for is allowed and leaves no trace; the name
  of an inherited member is allowed too, every time, and each call replaces what is
  recorded under the name by the time of the call.
\<close>

lemma checkLimit_no_entry:
  "limits channel = None \<Longrightarrow> checkLimit now channel calls = (Inr True, calls)"
  by (simp add: checkLimit_def)

lemma checkLimit_each_no_entry:
  "limits channel = None \<Longrightarrow>
   checkLimit_each instants channel calls = (replicate (length instants) (Inr True), calls)"
  by (induction instants) (simp_all add: checkLimit_no_entry)

lemma checkLimit_inherited:
  "limits channel = Some Inherited \<Longrightarrow>
   checkLimit now channel calls = (Inr True, calls(channel \<mapsto> [now]))"
  by (simp add: checkLimit_def)

lemma checkLimit_each_allowed:
  "limits channel = None \<or> limits channel = Some Inherited \<Longrightarrow>
   fst (checkLimit_each instants channel calls) = replicate (length instants) (Inr True)"
proof (induction instants arbitrary: calls)
  case Nil
  show ?case by simp
next
  case (Cons now later)
  from Cons.prems obtain calls1 where step: "checkLimit now channel calls = (Inr True, calls1)"
    using checkLimit_no_entry checkLimit_inherited by blast
  have "fst (checkLimit_each later channel calls1) = replicate (length later) (Inr True)"
    using Cons.prems by (rule Cons.IH)
  then show ?case
    by (cases "checkLimit_each later channel calls1") (simp add: step)
qed

section \<open>Properties of the validator\<close>

lemma only_declared_Nil [simp]: "only_declared schema []"
  by simp

lemma only_declared_weaken:
  "only_declared rest payload \<Longrightarrow> only_declared (entry # rest) payload"
  by (induction payload) auto

lemma only_declared_Cons:
  "declared_value r v \<Longrightarrow> only_declared rest payload \<Longrightarrow>
   only_declared ((key, r) # rest) ((key, v) # payload)"
  using only_declared_weaken [of rest payload "(key, r)"] by simp

lemma put_field_Inr:
  "put_field key v later = Inr validated \<Longrightarrow>
   \<exists>others. later = Inr others \<and> validated = (key, v) # others"
  by (cases later) (auto simp: put_field_def)

lemma validateObject_only_declared:
  "validateObject obj schema = Inr validated \<Longrightarrow> only_declared schema validated"
proof (induction obj schema arbitrary: validated rule: validateObject.induct)
  case (1 obj)
  then show ?case by simp
next
  case (2 obj key ty req ml lo hi props f rest)
  let ?r = "Rules ty req ml lo hi props f"
  obtain got where got: "get_property obj key = Inr got"
    using "2.prems" by (cases "get_property obj key") simp_all
  show ?case
  proof (cases "absent got")
    case True
    with "2.prems" got have req: "\<not> req" and rest: "validateObject obj rest = Inr validated"
      by (simp_all split: if_splits)
    have "only_declared rest validated"
      using "2.IH"(1) [OF got _ _ rest] True req by simp
    then show ?thesis
      by (rule only_declared_weaken)
  next
    case False
    then obtain v where v: "got = Some v"
      by (cases got) (simp_all add: absent_def)
    have chk: "check_value key ?r v = None"
      using "2.prems" got v False by (cases "check_value key ?r v") simp_all
    show ?thesis
    proof (cases "\<exists>sub_schema. props = Some sub_schema \<and> ty = ''object''")
      case True
      then obtain sub_schema where p: "props = Some sub_schema" and ty: "ty = ''object''"
        by blast
      obtain sub where sub: "validateObject (Some v) sub_schema = Inr sub"
        using "2.prems" got v False chk p ty
        by (cases "validateObject (Some v) sub_schema") simp_all
      have put: "put_field key (JObj sub) (validateObject obj rest) = Inr validated"
        using "2.prems" got v False chk p ty sub by simp
      then obtain others where others: "validateObject obj rest = Inr others"
        and validated: "validated = (key, JObj sub) # others"
        using put_field_Inr by blast
      have nested: "only_declared sub_schema sub"
        using "2.IH"(4) [OF got _ _ v chk p ty sub] False by simp
      have tail: "only_declared rest others"
        using "2.IH"(5) [OF got _ _ v chk p ty sub others] False by simp
      have "declared_value ?r (JObj sub)"
        using nested p by simp
      then show ?thesis
        unfolding validated using tail by (rule only_declared_Cons)
    next
      case plain: False
      have cv: "custom_validation key ?r v = None"
        using "2.prems" got v False chk plain
        by (cases "custom_validation key ?r v"; cases props) (simp_all split: if_splits)
      have put: "put_field key v (validateObject obj rest) = Inr validated"
        using "2.prems" got v False chk plain cv by (cases props) (simp_all split: if_splits)
      then obtain others where others: "validateObject obj rest = Inr others"
        and validated: "validated = (key, v) # others"
        using put_field_Inr by blast
      have tail: "only_declared rest others"
      proof (cases props)
        case None
        then show ?thesis
          using "2.IH"(3) [OF got _ _ v chk None cv others] False by simp
      next
        case (Some sub_schema)
        with plain have "ty \<noteq> ''object''" by simp
        then show ?thesis
          using "2.IH"(6) [OF got _ _ v chk Some _ cv others] False by simp
      qed
      have "declared_value ?r v"
        using plain by (cases props) simp_all
      then show ?thesis
        unfolding validated using tail by (rule only_declared_Cons)
    qed
  qed
qed

lemma only_declared_keys:
  "only_declared schema validated \<Longrightarrow> fst ` set validated \<subseteq> fst ` set schema"
  by (induction validated) (force simp: list_ex_iff)+

lemma validateObject_reads_declared:
  "(\<forall>key \<in> fst ` set schema. get_property obj key = get_property obj' key) \<Longrightarrow>
   validateObject obj schema = validateObject obj' schema"
proof (induction schema)
  case Nil
  then show ?case by simp
next
  case (Cons entry rest)
  obtain key r where entry: "entry = (key, r)"
    by (cases entry)
  obtain ty req ml lo hi props f where r: "r = Rules ty req ml lo hi props f"
    by (cases r)
  have same: "get_property obj key = get_property obj' key"
    using Cons.prems entry by simp
  have rest: "validateObject obj rest = validateObject obj' rest"
    using Cons by simp
  show ?case
    unfolding entry r validateObject.simps same rest ..
qed

lemma check_value_object:
  "check_value key (Rules ''object'' req ml lo hi props f) (JObj x) = None"
  by (simp add: check_value_def split: option.splits)

lemma validateObject_same_declared:
  "same_declared schema a b \<Longrightarrow> validateObject a schema = validateObject b schema"
proof (induction schema a b rule: same_declared.induct)
  case (1 a b)
  then show ?case by simp
next
  case (2 key ty req ml lo hi props f rest a b)
  let ?r = "Rules ty req ml lo hi props f"
  have rest: "validateObject a rest = validateObject b rest"
    using 2 by simp
  show ?case
  proof (cases "get_property a key = get_property b key")
    case True
    show ?thesis
      unfolding validateObject.simps True rest ..
  next
    case False
    with "2.prems" have ty: "ty = ''object''"
      and deep: "(case props of
           None \<Rightarrow> False
         | Some sub_schema \<Rightarrow>
             (case get_property a key of
                Inr (Some (JObj x)) \<Rightarrow>
                  (case get_property b key of
                     Inr (Some (JObj y)) \<Rightarrow> same_declared sub_schema (Some (JObj x)) (Some (JObj y))
                   | _ \<Rightarrow> False)
              | _ \<Rightarrow> False))"
      by simp_all
    from deep obtain sub_schema where props: "props = Some sub_schema"
      by (cases props) simp_all
    from deep props obtain oa where oa: "get_property a key = Inr oa"
      by (cases "get_property a key") simp_all
    from deep props oa obtain va where va: "oa = Some va"
      by (cases oa) simp_all
    from deep props oa va obtain x where x: "va = JObj x"
      by (cases va) simp_all
    from deep props oa va x obtain ob where ob: "get_property b key = Inr ob"
      by (cases "get_property b key") simp_all
    from deep props oa va x ob obtain vb where vb: "ob = Some vb"
      by (cases ob) simp_all
    from deep props oa va x ob vb obtain y where y: "vb = JObj y"
      by (cases vb) simp_all
    have ga: "get_property a key = Inr (Some (JObj x))"
      by (simp add: oa va x)
    have gb: "get_property b key = Inr (Some (JObj y))"
      by (simp add: ob vb y)
    have nested: "same_declared sub_schema (Some (JObj x)) (Some (JObj y))"
      using deep by (simp add: props ga gb)
    have sub: "validateObject (Some (JObj x)) sub_schema = validateObject (Some (JObj y)) sub_schema"
      using "2.IH"(1) [OF props oa va x ob vb y] nested by simp
    show ?thesis
      unfolding validateObject.simps rest
      by (simp add: ty props ga gb absent_def check_value_object sub)
  qed
qed

section \<open>Properties of the paths\<close>

text \<open>
  A relative path that climbs above its start keeps a leading \<^verbatim>\<open>..\<close> when it is
  normalized; and a location whose text starts with the text of a directory lies within
  the directory or beside it.
\<close>

lemma leading_parent_kept:
  "res \<noteq> [] \<Longrightarrow> hd res = ''..'' \<Longrightarrow>
   normalize_segments True res segs \<noteq> [] \<and> hd (normalize_segments True res segs) = ''..''"
proof (induction segs arbitrary: res)
  case Nil
  then show ?case by simp
next
  case (Cons seg segs)
  have shorter: "butlast res \<noteq> [] \<and> hd (butlast res) = ''..''" if "last res \<noteq> ''..''"
  proof (cases res)
    case Nil
    with Cons.prems show ?thesis by simp
  next
    case (Cons a rest)
    with Cons.prems(2) that have "rest \<noteq> []"
      by auto
    with Cons Cons.prems(2) show ?thesis
      by simp
  qed
  have longer: "res @ [s] \<noteq> [] \<and> hd (res @ [s]) = ''..''" for s
    using Cons.prems by simp
  show ?case
    using Cons.IH [OF conjunct1 [OF shorter] conjunct2 [OF shorter]]
      Cons.IH [OF conjunct1 [OF longer] conjunct2 [OF longer]] Cons.IH [OF Cons.prems]
    by simp
qed

lemma climbs_normalize:
  "''..'' \<notin> set res \<Longrightarrow> climbs (length res) segs \<Longrightarrow>
   normalize_segments True res segs \<noteq> [] \<and> hd (normalize_segments True res segs) = ''..''"
proof (induction segs arbitrary: res)
  case Nil
  then show ?case by simp
next
  case (Cons seg segs)
  consider (skip) "seg = [] \<or> seg = ''.''" | (up) "seg = ''..''"
    | (name) "seg \<noteq> []" "seg \<noteq> ''.''" "seg \<noteq> ''..''"
    by blast
  then show ?case
  proof cases
    case skip
    then show ?thesis
      using Cons.IH [OF Cons.prems(1)] Cons.prems(2) by auto
  next
    case up
    show ?thesis
    proof (cases "res = []")
      case True
      then show ?thesis
        using up leading_parent_kept [of "[''..'']" segs] by simp
    next
      case False
      then have last: "last res \<noteq> ''..''"
        using Cons.prems(1) last_in_set by metis
      have "''..'' \<notin> set (butlast res)"
        using Cons.prems(1) in_set_butlastD by metis
      moreover have "climbs (length (butlast res)) segs"
        using Cons.prems(2) up False by simp
      ultimately show ?thesis
        using Cons.IH [of "butlast res"] up False last by simp
    qed
  next
    case name
    have "''..'' \<notin> set (res @ [seg])"
      using Cons.prems(1) name(3) by simp
    moreover have "climbs (length (res @ [seg])) segs"
      using Cons.prems(2) name by simp
    ultimately show ?thesis
      using Cons.IH [of "res @ [seg]"] name by simp
  qed
qed

lemma string_includes_Nil [simp]: "string_includes s []"
  by (cases s) simp_all

lemma string_includes_append: "string_includes s sub \<Longrightarrow> string_includes (s @ t) sub"
proof (induction s)
  case Nil
  then show ?case by simp
next
  case (Cons c s)
  have "prefix sub ((c # s) @ t)" if "prefix sub (c # s)"
    using that by (rule prefix_prefix)
  with Cons show ?case
    by auto
qed

lemma string_includes_Cons: "string_includes s sub \<Longrightarrow> string_includes (c # s) sub"
  by simp

lemma join_path_parent:
  "segs \<noteq> [] \<Longrightarrow> hd segs = ''..'' \<Longrightarrow> string_includes (join_path segs) ''..''"
proof (cases segs)
  case Nil
  then show "segs \<noteq> [] \<Longrightarrow> ?thesis" by simp
next
  case (Cons a rest)
  assume "hd segs = ''..''"
  with Cons show ?thesis
    by (cases rest) simp_all
qed

lemma climbing_path_normalized:
  assumes "climbs_above_start path"
  shows "string_includes (normalize path) ''..''"
proof -
  let ?segs = "normalize_segments True [] (split_path path)"
  have rel: "\<not> isAbsolute path" and up: "climbs 0 (split_path path)"
    using assms by (simp_all add: climbs_above_start_def)
  have ne: "path \<noteq> []"
    using up by auto
  have "?segs \<noteq> [] \<and> hd ?segs = ''..''"
    using climbs_normalize [of "[]" "split_path path"] up by simp
  then have inc: "string_includes (join_path ?segs) ''..''"
    using join_path_parent by blast
  then have "join_path ?segs \<noteq> []"
    by auto
  then show ?thesis
    using rel ne inc by (simp add: normalize_def normalizeString_def Let_def string_includes_append)
qed


lemma split_path_nonempty: "split_path s \<noteq> []"
  by (cases s) (simp_all split: list.split)

lemma prefix_within_or_beside:
  "prefix d r \<Longrightarrow> prefix (split_path d) (split_path r) \<or> beside_segments (split_path d) (split_path r)"
proof (induction d arbitrary: r)
  case Nil
  obtain s ss where "split_path r = s # ss"
    using split_path_nonempty [of r] by (cases "split_path r") simp_all
  then show ?case
    by (cases "s = []") simp_all
next
  case (Cons c d)
  then obtain r' where r: "r = c # r'" and p: "prefix d r'"
    by (cases r) simp_all
  obtain x xs where x: "split_path d = x # xs"
    using split_path_nonempty [of d] by (cases "split_path d") simp_all
  obtain y ys where y: "split_path r' = y # ys"
    using split_path_nonempty [of r'] by (cases "split_path r'") simp_all
  from Cons.IH [OF p] show ?case
    unfolding r by (cases xs) (auto simp: x y)
qed

lemma outside_not_prefix:
  "\<not> within location dir \<Longrightarrow> \<not> beside location dir \<Longrightarrow> \<not> startsWith location dir"
  using prefix_within_or_beside [of dir location] by (auto simp: within_def beside_def startsWith_def)

text \<open>
  The directory test at a location beside an allowed directory: the location lies within
  none of the allowed directories, and both validators accept the path.
\<close>

lemma validators_accept_beside:
  "\<not> list_ex (within (resolve env0 (normalize ''/home/u/DocumentsBackup/stores.csv'')))
        (map (resolve env0) [userData env0, documents env0, downloads env0, desktop env0]) \<and>
   beside (resolve env0 (normalize ''/home/u/DocumentsBackup/stores.csv'')) (resolve env0 (documents env0)) \<and>
   validateFilePath env0 ''/home/u/DocumentsBackup/stores.csv'' [''.csv''] = Inr True \<and>
   validateExportPath env0 ''/home/u/DocumentsBackup/report.xlsx'' = Inr True"
  by code_simp

section \<open>Properties of the batch insert\<close>

lemma insertResult_fails:
  "insert_fails r \<Longrightarrow> \<exists>e. insertResult now sid r db = (Rejected e, db)"
  by (auto simp: insert_fails_def insertResult_def split: option.splits)

lemma insertResult_succeeds:
  assumes "\<not> insert_fails r"
  shows "\<exists>i row. insertResult now sid r db =
           (Resolved i, db\<lparr>tbl := (tbl db)\<lparr>scan_results := scan_results (tbl db) @ [row],
                                           sqlite_sequence := i\<rparr>\<rparr>) \<and>
         session_id row = sid"
proof -
  obtain st a where st: "res_store r = Some st" and a: "res_asin r = Some a"
    using assms by (auto simp: insert_fails_def)
  show ?thesis
    unfolding insertResult_def Let_def st a option.case
    by (intro exI conjI, rule refl) simp
qed

lemma insert_all_decided_by_last:
  assumes "rs \<noteq> []"
    and "outcome b = Pending"
    and "journal (conn b) = Some saved"
    and "completed b + length rs = n"
  shows "(insert_fails (last rs) \<longrightarrow>
           outcome (insert_all now sid n rs b) =
             Rejected (BatchInsertFailed (length (batch_errors b) + length (filter insert_fails rs))) \<and>
           tbl (conn (insert_all now sid n rs b)) = saved \<and>
           journal (conn (insert_all now sid n rs b)) = None) \<and>
         (\<not> insert_fails (last rs) \<longrightarrow>
           (\<exists>report. outcome (insert_all now sid n rs b) = Resolved report \<and>
              inserted report = n \<and>
              length (errors report) = length (batch_errors b) + length (filter insert_fails rs)) \<and>
           journal (conn (insert_all now sid n rs b)) = None \<and>
           length (filter (\<lambda>x. session_id x = sid) (scan_results (tbl (conn (insert_all now sid n rs b))))) =
             length (filter (\<lambda>x. session_id x = sid) (scan_results (tbl (conn b)))) +
             length (filter (\<lambda>r. \<not> insert_fails r) rs))"
  using assms
proof (induction rs arbitrary: b rule: list_nonempty_induct)
  case (single r)
  have n: "completed b + 1 = n"
    using single.prems(3) by simp
  show ?case
  proof (cases "insert_fails r")
    case True
    then obtain e where "insertResult now sid r (conn b) = (Rejected e, conn b)"
      using insertResult_fails by blast
    then show ?thesis
      using True n single.prems(2) by (simp add: insert_one_def ROLLBACK_def Let_def)
  next
    case False
    then obtain i row where run: "insertResult now sid r (conn b) =
        (Resolved i, (conn b)\<lparr>tbl := (tbl (conn b))\<lparr>scan_results := scan_results (tbl (conn b)) @ [row],
                                                    sqlite_sequence := i\<rparr>\<rparr>)"
      and row: "session_id row = sid"
      using insertResult_succeeds by blast
    show ?thesis
      using False n single.prems(2) row by (simp add: insert_one_def run COMMIT_def Let_def)
  qed
next
  case (cons r rs)
  have more: "completed b + 1 \<noteq> n"
    using cons.prems(3) cons.hyps by (cases rs) simp_all
  let ?b = "insert_one now sid n r b"
  show ?case
  proof (cases "insert_fails r")
    case True
    then obtain e where run: "insertResult now sid r (conn b) = (Rejected e, conn b)"
      using insertResult_fails by blast
    have b': "outcome ?b = Pending" "journal (conn ?b) = Some saved" "completed ?b + length rs = n"
      "batch_errors ?b = batch_errors b @ [e]" "conn ?b = conn b"
      using more cons.prems by (simp_all add: insert_one_def run Let_def)
    show ?thesis
      using cons.IH [OF b'(1,2,3)] True cons.hyps by (simp add: b'(4,5))
  next
    case False
    then obtain i row where run: "insertResult now sid r (conn b) =
        (Resolved i, (conn b)\<lparr>tbl := (tbl (conn b))\<lparr>scan_results := scan_results (tbl (conn b)) @ [row],
                                                    sqlite_sequence := i\<rparr>\<rparr>)"
      and row: "session_id row = sid"
      using insertResult_succeeds by blast
    have b': "outcome ?b = Pending" "journal (conn ?b) = Some saved" "completed ?b + length rs = n"
      "batch_errors ?b = batch_errors b"
      "scan_results (tbl (conn ?b)) = scan_results (tbl (conn b)) @ [row]"
      using more cons.prems by (simp_all add: insert_one_def run Let_def)
    show ?thesis
      using cons.IH [OF b'(1,2,3)] False cons.hyps row by (simp add: b'(4,5))
  qed
qed

text \<open>
  What \<open>insertBatch\<close> does with a batch that is not empty, on a connection with no
  transaction open: the outcome of the last insert alone decides. When it fails, the
  transaction is rolled back and the promise is rejected with the number of failures; when
  it succeeds, the transaction is committed, whatever happened to the inserts before it.
\<close>

lemma insertBatch_decided_by_last:
  assumes "results \<noteq> []" and "journal db = None"
  shows "(insert_fails (last results) \<longrightarrow>
           insertBatch now sid results db =
             (Rejected (BatchInsertFailed (length (filter insert_fails results))), db)) \<and>
         (\<not> insert_fails (last results) \<longrightarrow>
           (\<exists>report. fst (insertBatch now sid results db) = Resolved report \<and>
              inserted report = length results \<and>
              length (errors report) = length (filter insert_fails results)) \<and>
           journal (snd (insertBatch now sid results db)) = None \<and>
           committed_count sid (snd (insertBatch now sid results db)) =
             committed_count sid db + length (filter (\<lambda>r. \<not> insert_fails r) results))"
proof -
  let ?b = "\<lparr>completed = 0, batch_errors = [], outcome = Pending, conn = BEGIN_TRANSACTION db\<rparr>"
  let ?end = "insert_all now sid (length results) results ?b"
  have open_txn: "journal (conn ?b) = Some (tbl db)" "tbl (conn ?b) = tbl db"
    using assms(2) by (simp_all add: BEGIN_TRANSACTION_def)
  note loop = insert_all_decided_by_last [OF assms(1), of ?b "tbl db" "length results" now sid]
  have batch: "insertBatch now sid results db = (outcome ?end, conn ?end)"
    by (simp add: insertBatch_def Let_def)
  have restored: "conn ?end = db" if "tbl (conn ?end) = tbl db" "journal (conn ?end) = None"
    using that assms(2) by (intro database.equality) simp_all
  have rolled: "insertBatch now sid results db =
      (Rejected (BatchInsertFailed (length (filter insert_fails results))), db)"
    if "insert_fails (last results)"
    using loop open_txn that restored by (simp add: batch)
  have kept: "(\<exists>report. fst (insertBatch now sid results db) = Resolved report \<and>
        inserted report = length results \<and>
        length (errors report) = length (filter insert_fails results)) \<and>
      journal (snd (insertBatch now sid results db)) = None \<and>
      committed_count sid (snd (insertBatch now sid results db)) =
        committed_count sid db + length (filter (\<lambda>r. \<not> insert_fails r) results)"
    if "\<not> insert_fails (last results)"
    using loop open_txn that assms(2) by (simp add: batch committed_count_def committed_def)
  show ?thesis
    using rolled kept by blast
qed


section \<open>Properties of the store\<close>

lemma filter_neg_same [simp]: "filter P (filter (\<lambda>x. \<not> P x) xs) = []"
  by (induction xs) auto

lemma deleteSession_eq:
  "deleteSession S db =
     (Resolved (length (filter (\<lambda>r. session_id r = S) (scan_results (tbl db)))),
      db\<lparr>tbl := (tbl db)\<lparr>
          scan_results := filter (\<lambda>r. session_id r \<noteq> S) (scan_results (tbl db)),
          scan_progress := filter (\<lambda>p. p_session_id p \<noteq> S) (scan_progress (tbl db)),
          scan_sessions := filter (\<lambda>s. s_id s \<noteq> S) (scan_sessions (tbl db))\<rparr>\<rparr>)"
  by (simp add: deleteSession_def delete_results_def delete_progress_def delete_sessions_def Let_def)


lemma filter_unchanged: "(\<forall>x \<in> set xs. P x) \<Longrightarrow> filter P xs = xs"
  by (induction xs) auto

text \<open>
  C4, as the claim states it, at a concrete store. A result is inserted under the session
  id \<open>GHOST\<close>, which has no session row (nothing checks the reference); \<open>deleteSession\<close>
  of that unknown id then reports one deletion, not zero.
\<close>

theorem deleteSession_unknown_counterexample:
  "''GHOST'' \<notin> s_id ` set (scan_sessions (tbl (snd (insertResult ''2026-11-02 10:00:00'' ''GHOST'' oat_milk db0)))) \<and>
   fst (insertResult ''2026-11-02 10:00:00'' ''GHOST'' oat_milk db0) = Resolved 2 \<and>
   fst (deleteSession ''GHOST'' (snd (insertResult ''2026-11-02 10:00:00'' ''GHOST'' oat_milk db0))) = Resolved 1"
  by code_simp

text \<open>
  C4, amended. For every session id \<open>S\<close> and every state of the store, \<open>deleteSession S\<close>
  is not an error: it resolves with the number of result rows that carry \<open>S\<close>; afterwards
  the result, progress and session tables are the old ones without the rows of \<open>S\<close>, so
  \<open>getResultCount S\<close> resolves with 0, and a second \<open>deleteSession S\<close> resolves with 0 and
  changes nothing. For an id that has no session row it reports zero deletions when no
  result row carries the id, and it changes nothing when no row of any table carries it.
\<close>

theorem deleteSession_removes_session:
  "fst (deleteSession S db) = getResultCount S db \<and>
   fst (deleteSession S db) = Resolved (length (filter (\<lambda>r. session_id r = S) (scan_results (tbl db)))) \<and>
   scan_results (tbl (snd (deleteSession S db))) = filter (\<lambda>r. session_id r \<noteq> S) (scan_results (tbl db)) \<and>
   scan_progress (tbl (snd (deleteSession S db))) = filter (\<lambda>p. p_session_id p \<noteq> S) (scan_progress (tbl db)) \<and>
   scan_sessions (tbl (snd (deleteSession S db))) = filter (\<lambda>s. s_id s \<noteq> S) (scan_sessions (tbl db)) \<and>
   getResultCount S (snd (deleteSession S db)) = Resolved 0 \<and>
   deleteSession S (snd (deleteSession S db)) = (Resolved 0, snd (deleteSession S db)) \<and>
   (S \<notin> session_id ` set (scan_results (tbl db)) \<longrightarrow> fst (deleteSession S db) = Resolved 0) \<and>
   (S \<notin> s_id ` set (scan_sessions (tbl db)) \<and> S \<notin> session_id ` set (scan_results (tbl db)) \<and>
    S \<notin> p_session_id ` set (scan_progress (tbl db)) \<longrightarrow>
      deleteSession S db = (Resolved 0, db))"
proof -
  have gone: "filter (\<lambda>r. session_id r = S) (filter (\<lambda>r. session_id r \<noteq> S) rs) = []" for rs
    by (induction rs) auto
  have again: "deleteSession S (snd (deleteSession S db)) = (Resolved 0, snd (deleteSession S db))"
    by (simp add: deleteSession_eq gone)
  have none: "filter (\<lambda>r. session_id r = S) (scan_results (tbl db)) = []"
    if "S \<notin> session_id ` set (scan_results (tbl db))"
    using that by (auto simp: filter_empty_conv)
  have unknown: "deleteSession S db = (Resolved 0, db)"
    if s: "S \<notin> s_id ` set (scan_sessions (tbl db))"
      and r: "S \<notin> session_id ` set (scan_results (tbl db))"
      and p: "S \<notin> p_session_id ` set (scan_progress (tbl db))"
  proof -
    have r': "\<forall>r \<in> set (scan_results (tbl db)). session_id r \<noteq> S"
      using r by blast
    have p': "\<forall>p \<in> set (scan_progress (tbl db)). p_session_id p \<noteq> S"
      using p by blast
    have s': "\<forall>s \<in> set (scan_sessions (tbl db)). s_id s \<noteq> S"
      using s by blast
    show ?thesis
      by (simp add: deleteSession_eq none [OF r] filter_unchanged [OF r'] filter_unchanged [OF p']
          filter_unchanged [OF s'])
  qed
  show ?thesis
    using again unknown none by (simp add: deleteSession_eq getResultCount_def gone)
qed

theorem deleteSession_removes_session_witness:
  "''S2'' \<notin> s_id ` set (scan_sessions (tbl db0)) \<and>
   ''S2'' \<notin> session_id ` set (scan_results (tbl db0)) \<and>
   ''S2'' \<notin> p_session_id ` set (scan_progress (tbl db0)) \<and>
   deleteSession ''S2'' db0 = (Resolved 0, db0) \<and>
   fst (deleteSession ''S1'' db0) = Resolved 1 \<and>
   getResultCount ''S1'' (snd (deleteSession ''S1'' db0)) = Resolved 0"
proof -
  have new: "''S2'' \<notin> s_id ` set (scan_sessions (tbl db0))"
    "''S2'' \<notin> session_id ` set (scan_results (tbl db0))"
    "''S2'' \<notin> p_session_id ` set (scan_progress (tbl db0))"
    by (simp_all add: db0_def sample_session_def sample_result_def sample_progress_def)
  have cnt: "getResultCount ''S1'' db0 = Resolved 1"
    by (simp add: db0_def getResultCount_def sample_result_def)
  show ?thesis
    using deleteSession_removes_session [of "''S2''" db0]
      deleteSession_removes_session [of "''S1''" db0] new cnt
    by simp
qed

lemma completeSession_eq:
  "completeSession now S db =
     (Resolved (), db\<lparr>tbl := (tbl db)\<lparr>scan_sessions :=
         map (\<lambda>s. if s_id s = S then s\<lparr>completed_at := Some now, status := ''completed''\<rparr> else s)
           (scan_sessions (tbl db))\<rparr>\<rparr>)"
  by (simp add: completeSession_def Let_def)

lemma complete_rows_status:
  assumes "s \<in> set (map (\<lambda>s. if s_id s = S then s\<lparr>completed_at := Some t, status := ''completed''\<rparr> else s) xs)"
    and "s_id s = S"
  shows "status s = ''completed'' \<and> completed_at s = Some t"
proof -
  let ?f = "\<lambda>s. if s_id s = S then s\<lparr>completed_at := Some t, status := ''completed''\<rparr> else s"
  from assms(1) have "s \<in> ?f ` set xs"
    by (simp only: set_map)
  then obtain x where x: "s = ?f x"
    by blast
  show ?thesis
    using x assms(2) by (cases "s_id x = S") simp_all
qed

lemma complete_rows_twice:
  "map (\<lambda>s. if s_id s = S then s\<lparr>completed_at := Some t2, status := ''completed''\<rparr> else s)
     (map (\<lambda>s. if s_id s = S then s\<lparr>completed_at := Some t1, status := ''completed''\<rparr> else s) xs)
   = map (\<lambda>s. if s_id s = S then s\<lparr>completed_at := Some t2, status := ''completed''\<rparr> else s) xs"
  by (induction xs) simp_all

lemma completeSession_later_wins:
  "completeSession t2 S (snd (completeSession t1 S db)) = completeSession t2 S db"
  unfolding completeSession_eq by (simp add: complete_rows_twice del: map_map)

text \<open>
  C8, as the spec states it, at a concrete store: the session \<open>S1\<close> is completed at
  10:00:00 and completed again five seconds later; the second call replaces the
  completion timestamp.
\<close>

theorem completeSession_twice_counterexample:
  "map completed_at (scan_sessions (tbl (snd (completeSession ''2026-11-01 10:00:05'' ''S1''
      (snd (completeSession ''2026-11-01 10:00:00'' ''S1'' db0)))))) = [Some ''2026-11-01 10:00:05''] \<and>
   map completed_at (scan_sessions (tbl (snd (completeSession ''2026-11-01 10:00:00'' ''S1'' db0))))
     = [Some ''2026-11-01 10:00:00'']"
  by (simp add: completeSession_def db0_def sample_session_def)

text \<open>
  C8, amended. For every session id and every store, a second \<open>completeSession\<close> gives the
  store that the second call alone would have given: every session row with that id has
  status \<open>completed\<close> and, as completion timestamp, the \<^verbatim>\<open>CURRENT_TIMESTAMP\<close> of the
  second call. A second call that reads the same \<^verbatim>\<open>CURRENT_TIMESTAMP\<close> text as the first
  changes nothing.
\<close>

theorem completeSession_twice:
  "completeSession t2 S (snd (completeSession t1 S db)) = completeSession t2 S db \<and>
   (\<forall>s \<in> set (scan_sessions (tbl (snd (completeSession t2 S (snd (completeSession t1 S db)))))).
      s_id s = S \<longrightarrow> status s = ''completed'' \<and> completed_at s = Some t2) \<and>
   completeSession t1 S (snd (completeSession t1 S db)) = (Resolved (), snd (completeSession t1 S db))"
proof -
  have rows: "\<forall>s \<in> set (scan_sessions (tbl (snd (completeSession t2 S db)))).
      s_id s = S \<longrightarrow> status s = ''completed'' \<and> completed_at s = Some t2"
  proof (intro ballI impI)
    fix s
    assume "s \<in> set (scan_sessions (tbl (snd (completeSession t2 S db))))" and "s_id s = S"
    then show "status s = ''completed'' \<and> completed_at s = Some t2"
      using complete_rows_status [of s S t2 "scan_sessions (tbl db)"]
      by (simp add: completeSession_eq)
  qed
  have same: "completeSession t1 S (snd (completeSession t1 S db)) = (Resolved (), snd (completeSession t1 S db))"
    by (simp only: completeSession_later_wins) (simp add: completeSession_eq)
  show ?thesis
    using rows same by (simp only: completeSession_later_wins)
qed

theorem completeSession_twice_witness:
  "sample_session ''S1'' ''2026-11-01 09:30:00''\<lparr>completed_at := Some ''2026-11-01 10:00:05'', status := ''completed''\<rparr>
     \<in> set (scan_sessions (tbl (snd (completeSession ''2026-11-01 10:00:05'' ''S1''
        (snd (completeSession ''2026-11-01 10:00:00'' ''S1'' db0)))))) \<and>
   s_id (sample_session ''S1'' ''2026-11-01 09:30:00''\<lparr>completed_at := Some ''2026-11-01 10:00:05'', status := ''completed''\<rparr>) = ''S1'' \<and>
   status (sample_session ''S1'' ''2026-11-01 09:30:00''\<lparr>completed_at := Some ''2026-11-01 10:00:05'', status := ''completed''\<rparr>) = ''completed'' \<and>
   completeSession ''2026-11-01 10:00:05'' ''S1'' (snd (completeSession ''2026-11-01 10:00:00'' ''S1'' db0)) =
     completeSession ''2026-11-01 10:00:05'' ''S1'' db0"
proof -
  let ?s = "sample_session ''S1'' ''2026-11-01 09:30:00''\<lparr>completed_at := Some ''2026-11-01 10:00:05'', status := ''completed''\<rparr>"
  note spec = completeSession_twice [of "''2026-11-01 10:00:05''" "''S1''" "''2026-11-01 10:00:00''" db0]
  have here: "?s \<in> set (scan_sessions (tbl (snd (completeSession ''2026-11-01 10:00:05'' ''S1''
        (snd (completeSession ''2026-11-01 10:00:00'' ''S1'' db0))))))"
    by (simp add: completeSession_def db0_def sample_session_def)
  have sid: "s_id ?s = ''S1''"
    by (simp add: sample_session_def)
  from spec here sid have "status ?s = ''completed''"
    by blast
  with spec here sid show ?thesis
    by blast
qed

text \<open>
  C2 at a concrete input. With \<open>daysToKeep = -3000000\<close> on 2 November 2026 the cutoff is
  23 July 10240, and \<^verbatim>\<open>toISOString\<close> prints a year beyond 9999 with a sign and six
  digits. Both sessions of the store started before the cutoff, but no \<^verbatim>\<open>started_at\<close>
  text sorts before a text that begins with \<^verbatim>\<open>+\<close>: nothing is deleted, and the session of
  1 October 2026 remains.
\<close>

theorem cleanupOldSessions_beyond_year_9999:
  "toISOString (before_nov2 (- 3000000)) = ''+010240-07-23T10:59:00.000Z'' \<and>
   cleanupOldSessions before_nov2 (- 3000000) db_old_new =
     (Resolved \<lparr>deletedSessions = 0, deletedResults = 0\<rparr>, db_old_new) \<and>
   sample_session ''OLD'' ''2026-10-01 08:00:00'' \<in>
     set (scan_sessions (tbl (snd (cleanupOldSessions before_nov2 (- 3000000) db_old_new)))) \<and>
   started_at (sample_session ''OLD'' ''2026-10-01 08:00:00'') = CURRENT_TIMESTAMP oct1 \<and>
   earlier oct1 (before_nov2 (- 3000000))"
proof -
  have iso: "toISOString (before_nov2 (- 3000000)) = ''+010240-07-23T10:59:00.000Z''"
    by (simp add: toISOString_def before_nov2_def zero_pad_numeral digit_chars)
  have after: "\<not> ''2026-10-01 08:00:00'' < ''+010240-07-23T10:59:00.000Z''"
    "\<not> ''2026-11-01 09:30:00'' < ''+010240-07-23T10:59:00.000Z''"
    by code_simp+
  have run: "cleanupOldSessions before_nov2 (- 3000000) db_old_new =
      (Resolved \<lparr>deletedSessions = 0, deletedResults = 0\<rparr>, db_old_new)"
    by (simp add: cleanupOldSessions_eq iso db_old_new_def sample_session_def
        sessions_started_before_def after)
  have old: "sample_session ''OLD'' ''2026-10-01 08:00:00'' \<in> set (scan_sessions (tbl db_old_new))"
    by (simp add: db_old_new_def)
  have started: "started_at (sample_session ''OLD'' ''2026-10-01 08:00:00'') = CURRENT_TIMESTAMP oct1"
    by code_simp
  have before: "earlier oct1 (before_nov2 (- 3000000))"
    by code_simp
  show ?thesis
    using iso old started before by (simp add: run)
qed

text \<open>
  C3 at a concrete store. Three sessions were started within the same second;
  \<open>keepLatestScans 1\<close> finds no session strictly older than the boundary session, deletes
  nothing and leaves three sessions.
\<close>

theorem keepLatestScans_same_second:
  "keepLatestScans 1 db_same_second =
     (Resolved \<lparr>deletedSessions = 0, deletedResults = 0\<rparr>, db_same_second) \<and>
   length (scan_sessions (tbl (snd (keepLatestScans 1 db_same_second)))) = 3"
  by code_simp

text \<open>
  C1 at a concrete batch. The session \<open>S1\<close> has one committed result. The batch holds a
  result without a store, whose insert fails on the \<^verbatim>\<open>NOT NULL\<close> constraint, and then a
  complete result, whose insert succeeds. The callback of the second insert is the one
  that completes the count, so the transaction is committed: the promise resolves,
  reporting two inserts and the error, and the session has two committed results.
\<close>

theorem insertBatch_commits_after_failure:
  "insertBatch ''2026-11-02 10:00:00'' ''S1'' [no_store, oat_milk] db0 =
     (Resolved \<lparr>inserted = 2,
                errors = [SqlError (SQLITE_CONSTRAINT ''NOT NULL constraint failed: scan_results.store'')]\<rparr>,
      snd (insertBatch ''2026-11-02 10:00:00'' ''S1'' [no_store, oat_milk] db0)) \<and>
   journal (snd (insertBatch ''2026-11-02 10:00:00'' ''S1'' [no_store, oat_milk] db0)) = None \<and>
   committed_count ''S1'' db0 = 1 \<and>
   committed_count ''S1'' (snd (insertBatch ''2026-11-02 10:00:00'' ''S1'' [no_store, oat_milk] db0)) = 2"
  by code_simp

section \<open>Properties of the rate limiter, as claimed\<close>

text \<open>
  C5, as the claim states it, at a concrete state: \<open>start-scan\<close> (one call per 60
  seconds) has a call recorded at 100000 ms, and the clock, set back since, reads
  30000 ms. The check fails with 130 seconds, more than the window.
\<close>

theorem checkLimit_window_counterexample:
  "checkLimit 30000 ''start-scan'' [''start-scan'' \<mapsto> [100000]] =
     (Inl (RateLimitExceeded ''start-scan'' (Seconds 130)), [''start-scan'' \<mapsto> [100000]]) \<and>
   \<not> (130 :: int) \<le> 60000 div 1000"
  by (simp add: checkLimit_def limits_def Let_def resetTime_def oldest_def ceil_seconds_def)

text \<open>
  C5, amended. For every channel with a declared limit: the times at least a window old
  are dropped from the recorded calls; when the calls that remain are as many as the
  ceiling or more, the check fails with a rate-limit error whose number of seconds is
  greater than 0 and, provided no recorded time is later than now, at most the window in
  seconds, and it records nothing; otherwise it allows the call and records now. For
  \<open>start-scan\<close> (one call per 60 seconds): after a call that was allowed, a call less
  than 60 seconds later fails with a number of seconds in 1..60, and a call 60 seconds
  later or more is allowed.
\<close>

theorem checkLimit_window:
  "(limits channel = Some (Limit lim) \<longrightarrow>
     (let recorded = (case calls channel of None \<Rightarrow> [] | Some ts \<Rightarrow> ts);
          validCalls = filter (\<lambda>time. now - time < windowMs lim) recorded
      in (\<forall>time \<in> set recorded. windowMs lim \<le> now - time \<longrightarrow> time \<notin> set validCalls) \<and>
         (maxCalls lim \<le> length validCalls \<longrightarrow>
            (\<exists>r. checkLimit now channel calls =
                   (Inl (RateLimitExceeded channel (Seconds r)), calls(channel \<mapsto> validCalls)) \<and>
                 0 < r \<and> ((\<forall>time \<in> set recorded. time \<le> now) \<longrightarrow> r \<le> windowMs lim div 1000))) \<and>
         (length validCalls < maxCalls lim \<longrightarrow>
            checkLimit now channel calls = (Inr True, calls(channel \<mapsto> validCalls @ [now]))))) \<and>
   (fst (checkLimit t0 ''start-scan'' before) = Inr True \<and> t0 \<le> t1 \<and> t1 < t0 + 60000 \<and> t0 + 60000 \<le> t2 \<longrightarrow>
     (\<exists>r. checkLimit t1 ''start-scan'' (snd (checkLimit t0 ''start-scan'' before)) =
             (Inl (RateLimitExceeded ''start-scan'' (Seconds r)), snd (checkLimit t0 ''start-scan'' before)) \<and>
           0 < r \<and> r \<le> 60) \<and>
     fst (checkLimit t2 ''start-scan'' (snd (checkLimit t0 ''start-scan'' before))) = Inr True)"
proof (intro conjI impI)
  assume "limits channel = Some (Limit lim)"
  then show "let recorded = (case calls channel of None \<Rightarrow> [] | Some ts \<Rightarrow> ts);
          validCalls = filter (\<lambda>time. now - time < windowMs lim) recorded
      in (\<forall>time \<in> set recorded. windowMs lim \<le> now - time \<longrightarrow> time \<notin> set validCalls) \<and>
         (maxCalls lim \<le> length validCalls \<longrightarrow>
            (\<exists>r. checkLimit now channel calls =
                   (Inl (RateLimitExceeded channel (Seconds r)), calls(channel \<mapsto> validCalls)) \<and>
                 0 < r \<and> ((\<forall>time \<in> set recorded. time \<le> now) \<longrightarrow> r \<le> windowMs lim div 1000))) \<and>
         (length validCalls < maxCalls lim \<longrightarrow>
            checkLimit now channel calls = (Inr True, calls(channel \<mapsto> validCalls @ [now])))"
    by (rule checkLimit_declared)
next
  assume a: "fst (checkLimit t0 ''start-scan'' before) = Inr True \<and> t0 \<le> t1 \<and> t1 < t0 + 60000 \<and> t0 + 60000 \<le> t2"
  show "\<exists>r. checkLimit t1 ''start-scan'' (snd (checkLimit t0 ''start-scan'' before)) =
             (Inl (RateLimitExceeded ''start-scan'' (Seconds r)), snd (checkLimit t0 ''start-scan'' before)) \<and>
           0 < r \<and> r \<le> 60"
    using start_scan_window [of t0 before t1 t2] a by blast
  show "fst (checkLimit t2 ''start-scan'' (snd (checkLimit t0 ''start-scan'' before))) = Inr True"
    using start_scan_window [of t0 before t1 t2] a by blast
qed

theorem checkLimit_window_witness:
  "limits ''start-scan'' = Some (Limit \<lparr>maxCalls = 1, windowMs = 60000\<rparr>) \<and>
   maxCalls \<lparr>maxCalls = 1, windowMs = 60000\<rparr> \<le> length (filter (\<lambda>time. 31000 - time < 60000) [1000 :: int]) \<and>
   list_all (\<lambda>time. time \<le> 31000) [1000 :: int] \<and>
   (\<exists>r. checkLimit 31000 ''start-scan'' [''start-scan'' \<mapsto> [1000]] =
          (Inl (RateLimitExceeded ''start-scan'' (Seconds r)), [''start-scan'' \<mapsto> [1000]]) \<and>
        0 < r \<and> r \<le> 60) \<and>
   fst (checkLimit 0 ''start-scan'' Map.empty) = Inr True \<and>
   (0 :: int) \<le> 30000 \<and> (30000 :: int) < 0 + 60000 \<and> (0 :: int) + 60000 \<le> 60000 \<and>
   (\<exists>r. checkLimit 30000 ''start-scan'' (snd (checkLimit 0 ''start-scan'' Map.empty)) =
          (Inl (RateLimitExceeded ''start-scan'' (Seconds r)), snd (checkLimit 0 ''start-scan'' Map.empty)) \<and>
        0 < r \<and> r \<le> 60) \<and>
   fst (checkLimit 60000 ''start-scan'' (snd (checkLimit 0 ''start-scan'' Map.empty))) = Inr True"
proof -
  let ?lim = "\<lparr>maxCalls = 1, windowMs = 60000\<rparr>"
  note spec = checkLimit_window [where channel = "''start-scan''" and lim = ?lim
      and calls = "[''start-scan'' \<mapsto> [1000]]" and now = 31000
      and ?t0.0 = 0 and before = Map.empty and ?t1.0 = 30000 and ?t2.0 = 60000]
  have lim: "limits ''start-scan'' = Some (Limit ?lim)"
    by (simp add: limits_def)
  have full: "maxCalls ?lim \<le> length (filter (\<lambda>time. 31000 - time < 60000) [1000 :: int])"
    by simp
  have mono: "list_all (\<lambda>time. time \<le> 31000) [1000 :: int]"
    by simp
  have first: "fst (checkLimit 0 ''start-scan'' Map.empty) = Inr True"
    by (simp add: checkLimit_def limits_def)
  have order: "(0 :: int) \<le> 30000 \<and> (30000 :: int) < 0 + 60000 \<and> (0 :: int) + 60000 \<le> 60000"
    by simp
  have general: "\<exists>r. checkLimit 31000 ''start-scan'' [''start-scan'' \<mapsto> [1000]] =
          (Inl (RateLimitExceeded ''start-scan'' (Seconds r)), [''start-scan'' \<mapsto> [1000]]) \<and>
        0 < r \<and> r \<le> 60"
    using spec lim by (simp add: Let_def)
  have scenario: "(\<exists>r. checkLimit 30000 ''start-scan'' (snd (checkLimit 0 ''start-scan'' Map.empty)) =
          (Inl (RateLimitExceeded ''start-scan'' (Seconds r)), snd (checkLimit 0 ''start-scan'' Map.empty)) \<and>
        0 < r \<and> r \<le> 60) \<and>
      fst (checkLimit 60000 ''start-scan'' (snd (checkLimit 0 ''start-scan'' Map.empty))) = Inr True"
    using spec first order by blast
  show ?thesis
    using lim full mono general first order scenario by blast
qed

text \<open>
  C10 at a concrete name. \<open>toString\<close> is not one of the four channels with a declared
  limit, but every object inherits a member of that name, so \<^verbatim>\<open>this.limits[channel]\<close> is
  not \<^verbatim>\<open>undefined\<close> and the check does not return at its guard: it allows the call, and
  records the time of the call under the name.
\<close>

theorem checkLimit_inherited_name:
  "limits ''toString'' = Some Inherited \<and>
   fst (checkLimit 1000 ''toString'' Map.empty) = Inr True \<and>
   snd (checkLimit 1000 ''toString'' Map.empty) ''toString'' = Some [1000] \<and>
   snd (checkLimit 61000 ''toString'' (snd (checkLimit 1000 ''toString'' Map.empty))) ''toString'' = Some [61000]"
  by (simp add: checkLimit_def limits_def Object_prototype_def)

section \<open>Properties of the validator, as claimed\<close>

text \<open>
  C7. For every schema and every payload that \<open>validateObject\<close> accepts, the payload
  returned holds only fields the schema declares, at every level of nesting, so its keys
  are keys of the schema; and two payloads that have the same declared fields, whatever
  else they hold, get the same answer: an undeclared field is neither returned nor the
  cause of a failure. The same holds for \<open>validate\<close> and the schema of each channel.
\<close>

theorem validate_allow_list:
  "(validateObject obj schema = Inr validated \<longrightarrow>
      only_declared schema validated \<and> fst ` set validated \<subseteq> fst ` set schema) \<and>
   (same_declared schema obj obj' \<longrightarrow> validateObject obj schema = validateObject obj' schema) \<and>
   (validate env channel data = Inr accepted \<longrightarrow>
      (\<exists>s. schemas env channel = Some s \<and> only_declared s accepted \<and>
           fst ` set accepted \<subseteq> fst ` set s)) \<and>
   (schemas env channel = Some s \<and> same_declared s data data' \<longrightarrow>
      validate env channel data = validate env channel data')"
proof (intro conjI impI)
  assume "validateObject obj schema = Inr validated"
  then show "only_declared schema validated"
    by (rule validateObject_only_declared)
  then show "fst ` set validated \<subseteq> fst ` set schema"
    by (rule only_declared_keys)
next
  assume "same_declared schema obj obj'"
  then show "validateObject obj schema = validateObject obj' schema"
    by (rule validateObject_same_declared)
next
  assume ok: "validate env channel data = Inr accepted"
  then obtain s where s: "schemas env channel = Some s"
    by (cases "schemas env channel") (simp_all add: validate_def)
  with ok have "validateObject data s = Inr accepted"
    by (simp add: validate_def)
  then have "only_declared s accepted"
    by (rule validateObject_only_declared)
  with s show "\<exists>s. schemas env channel = Some s \<and> only_declared s accepted \<and>
      fst ` set accepted \<subseteq> fst ` set s"
    using only_declared_keys by blast
next
  assume "schemas env channel = Some s \<and> same_declared s data data'"
  then show "validate env channel data = validate env channel data'"
    by (simp add: validate_def validateObject_same_declared)
qed

theorem validate_allow_list_witness:
  "validate env0 ''start-scan'' (Some scan_request) =
     Inr [(''storeMappingFile'', JStr ''/home/u/Documents/stores.csv''),
          (''settings'', JObj [(''maxRetries'', JNum 3), (''headless'', JBool True)])] \<and>
   (\<exists>s. schemas env0 ''start-scan'' = Some s \<and>
        only_declared s [(''storeMappingFile'', JStr ''/home/u/Documents/stores.csv''),
                         (''settings'', JObj [(''maxRetries'', JNum 3), (''headless'', JBool True)])] \<and>
        same_declared s (Some scan_request) (Some scan_request_declared)) \<and>
   validate env0 ''start-scan'' (Some scan_request) = validate env0 ''start-scan'' (Some scan_request_declared)"
proof -
  let ?accepted = "[(''storeMappingFile'', JStr ''/home/u/Documents/stores.csv''),
                    (''settings'', JObj [(''maxRetries'', JNum 3), (''headless'', JBool True)])]"
  have run: "validate env0 ''start-scan'' (Some scan_request) = Inr ?accepted"
    by code_simp
  obtain s where s: "schemas env0 ''start-scan'' = Some s"
    by (simp add: schemas_def)
  have "same_declared (the (schemas env0 ''start-scan'')) (Some scan_request) (Some scan_request_declared)"
    by code_simp
  then have same: "same_declared s (Some scan_request) (Some scan_request_declared)"
    by (simp add: s)
  note spec = validate_allow_list [where env = env0 and channel = "''start-scan''"
      and data = "Some scan_request" and accepted = ?accepted and s = s
      and data' = "Some scan_request_declared"]
  from spec run s have only: "only_declared s ?accepted"
    by auto
  from spec s same
  have eq: "validate env0 ''start-scan'' (Some scan_request) =
      validate env0 ''start-scan'' (Some scan_request_declared)"
    by blast
  show ?thesis
    using run s only same eq by blast
qed

text \<open>
  C6, as the claim states it, at concrete paths: a path with a parent-directory segment
  that \<^verbatim>\<open>path.normalize\<close> resolves inside an allowed directory is accepted by both
  validators.
\<close>

theorem path_validators_counterexample:
  "has_parent_segment ''/home/u/Documents/scans/../stores.csv'' \<and>
   validateFilePath env0 ''/home/u/Documents/scans/../stores.csv'' [''.csv''] = Inr True \<and>
   has_parent_segment ''/home/u/Documents/scans/../report.xlsx'' \<and>
   validateExportPath env0 ''/home/u/Documents/scans/../report.xlsx'' = Inr True"
  by code_simp

text \<open>
  C6, amended. For every path, whatever its extension and whatever extensions are
  allowed: both validators raise an error for a relative path that climbs above the
  directory it starts from, as \<^verbatim>\<open>../../etc/passwd\<close> does; and each validator raises an
  error for a path that it resolves to a location outside its allowed directories, a
  location beside one of them excepted, about which nothing is said.
\<close>

theorem path_validators_reject:
  "(climbs_above_start path \<longrightarrow>
      (\<exists>e. validateFilePath env path allowedExtensions = Inl e) \<and>
      (\<exists>e. validateExportPath env path = Inl e)) \<and>
   (list_all (\<lambda>dir. \<not> within (resolve env (normalize path)) (resolve env dir) \<and>
                     \<not> beside (resolve env (normalize path)) (resolve env dir))
       [userData env, documents env, downloads env, desktop env] \<longrightarrow>
      (\<exists>e. validateFilePath env path allowedExtensions = Inl e)) \<and>
   (list_all (\<lambda>dir. \<not> within (resolve env (normalize path)) (resolve env dir) \<and>
                     \<not> beside (resolve env (normalize path)) (resolve env dir))
       [documents env, downloads env, desktop env] \<longrightarrow>
      (\<exists>e. validateExportPath env path = Inl e))"
proof (intro conjI impI)
  assume "climbs_above_start path"
  then have up: "string_includes (normalize path) ''..''"
    by (rule climbing_path_normalized)
  then show "\<exists>e. validateFilePath env path allowedExtensions = Inl e"
    by (simp add: validateFilePath_def Let_def)
  from up show "\<exists>e. validateExportPath env path = Inl e"
    by (simp add: validateExportPath_def Let_def)
next
  assume "list_all (\<lambda>dir. \<not> within (resolve env (normalize path)) (resolve env dir) \<and>
                     \<not> beside (resolve env (normalize path)) (resolve env dir))
       [userData env, documents env, downloads env, desktop env]"
  then have "\<not> list_ex (\<lambda>dir. startsWith (resolve env (normalize path)) (resolve env dir))
       [userData env, documents env, downloads env, desktop env]"
    using outside_not_prefix by simp
  then show "\<exists>e. validateFilePath env path allowedExtensions = Inl e"
    by (simp add: validateFilePath_def Let_def)
next
  assume "list_all (\<lambda>dir. \<not> within (resolve env (normalize path)) (resolve env dir) \<and>
                     \<not> beside (resolve env (normalize path)) (resolve env dir))
       [documents env, downloads env, desktop env]"
  then have "\<not> list_ex (\<lambda>dir. startsWith (resolve env (normalize path)) (resolve env dir))
       [documents env, downloads env, desktop env]"
    using outside_not_prefix by simp
  then show "\<exists>e. validateExportPath env path = Inl e"
    by (simp add: validateExportPath_def Let_def)
qed

theorem path_validators_reject_witness:
  "climbs_above_start ''../../etc/passwd.csv'' \<and>
   (\<exists>e. validateFilePath env0 ''../../etc/passwd.csv'' [''.csv''] = Inl e) \<and>
   (\<exists>e. validateExportPath env0 ''../../etc/passwd.csv'' = Inl e) \<and>
   validateFilePath env0 ''../../etc/passwd.csv'' [''.csv''] = Inl PathTraversal \<and>
   validateFilePath env0 ''../../etc/passwd'' [''.csv''] = Inl (InvalidExtension [''.csv'']) \<and>
   list_all (\<lambda>dir. \<not> within (resolve env0 (normalize ''/etc/report.xlsx'')) (resolve env0 dir) \<and>
                    \<not> beside (resolve env0 (normalize ''/etc/report.xlsx'')) (resolve env0 dir))
      [userData env0, documents env0, downloads env0, desktop env0] \<and>
   list_all (\<lambda>dir. \<not> within (resolve env0 (normalize ''/etc/report.xlsx'')) (resolve env0 dir) \<and>
                    \<not> beside (resolve env0 (normalize ''/etc/report.xlsx'')) (resolve env0 dir))
      [documents env0, downloads env0, desktop env0] \<and>
   (\<exists>e. validateFilePath env0 ''/etc/report.xlsx'' [''.xlsx''] = Inl e) \<and>
   (\<exists>e. validateExportPath env0 ''/etc/report.xlsx'' = Inl e) \<and>
   validateExportPath env0 ''/etc/report.xlsx'' = Inl ExportNotInAllowedDirectory \<and>
   validateExportPath env0 ''/etc/report.txt'' = Inl NotXlsx"
proof -
  have up: "climbs_above_start ''../../etc/passwd.csv''"
    by code_simp
  have out4: "list_all (\<lambda>dir. \<not> within (resolve env0 (normalize ''/etc/report.xlsx'')) (resolve env0 dir) \<and>
                    \<not> beside (resolve env0 (normalize ''/etc/report.xlsx'')) (resolve env0 dir))
      [userData env0, documents env0, downloads env0, desktop env0]"
    by code_simp
  have out3: "list_all (\<lambda>dir. \<not> within (resolve env0 (normalize ''/etc/report.xlsx'')) (resolve env0 dir) \<and>
                    \<not> beside (resolve env0 (normalize ''/etc/report.xlsx'')) (resolve env0 dir))
      [documents env0, downloads env0, desktop env0]"
    by code_simp
  have run: "validateFilePath env0 ''../../etc/passwd.csv'' [''.csv''] = Inl PathTraversal"
    "validateFilePath env0 ''../../etc/passwd'' [''.csv''] = Inl (InvalidExtension [''.csv''])"
    "validateExportPath env0 ''/etc/report.xlsx'' = Inl ExportNotInAllowedDirectory"
    "validateExportPath env0 ''/etc/report.txt'' = Inl NotXlsx"
    by code_simp+
  from path_validators_reject [of "''../../etc/passwd.csv''" env0 "[''.csv'']"] up
  have a: "(\<exists>e. validateFilePath env0 ''../../etc/passwd.csv'' [''.csv''] = Inl e) \<and>
      (\<exists>e. validateExportPath env0 ''../../etc/passwd.csv'' = Inl e)"
    by blast
  from path_validators_reject [of "''/etc/report.xlsx''" env0 "[''.xlsx'']"] out4 out3
  have b: "(\<exists>e. validateFilePath env0 ''/etc/report.xlsx'' [''.xlsx''] = Inl e) \<and>
      (\<exists>e. validateExportPath env0 ''/etc/report.xlsx'' = Inl e)"
    by blast
  show ?thesis
    using up a b out4 out3 run by blast
qed

end
